theory Spec2Isabelle
  imports Complex_Main "HOL-Library.Signed_Division" "HOL-Library.Log_Nat"
begin

section \<open>JavaScript values\<close>

text \<open>
  Numbers of the program are IEEE 754 doubles: \<open>NaN\<close>, the two infinities, and the finite
  doubles, each modelled by the real it denotes (the two zeros are one value). JSON
  \<open>null\<close> and a missing property are \<open>None\<close>.
\<close>

datatype jsnum = NaN | NegInfinity | Finite real | Infinity

fun isNaN :: "jsnum \<Rightarrow> bool" where
  "isNaN NaN = True"
| "isNaN _ = False"

text \<open>\<open>a >= b\<close> and \<open>a <= b\<close> on numbers: every comparison with \<open>NaN\<close> is false.\<close>

fun js_le :: "jsnum \<Rightarrow> jsnum \<Rightarrow> bool" where
  "js_le NaN _ = False"
| "js_le _ NaN = False"
| "js_le NegInfinity _ = True"
| "js_le _ Infinity = True"
| "js_le (Finite x) (Finite y) = (x \<le> y)"
| "js_le (Finite x) NegInfinity = False"
| "js_le Infinity (Finite y) = False"
| "js_le Infinity NegInfinity = False"

definition js_ge :: "jsnum \<Rightarrow> jsnum \<Rightarrow> bool" where
  "js_ge a b = js_le b a"

text \<open>\<open>Math.round\<close>: the nearest integer, a tie going towards plus infinity.\<close>

definition Math_round :: "real \<Rightarrow> int" where
  "Math_round x = \<lfloor>x + 1 / 2\<rfloor>"

text \<open>
  Rounding a real to the nearest double, a tie going to the even significand. The
  exponent of \<open>x\<close> is the \<open>e\<close> with \<open>2^e \<le> |x| < 2^(e+1)\<close>; a double has 53 significant
  bits, exponents from -1022 (below that the spacing stays \<open>2^-1074\<close>) to 1023, and
  what rounds to \<open>2^1024\<close> or beyond is an infinity.
\<close>

definition exponent :: "real \<Rightarrow> int" where
  "exponent x =
     (if 1 \<le> \<bar>x\<bar> then bitlen \<lfloor>\<bar>x\<bar>\<rfloor> - 1 else - bitlen (\<lceil>1 / \<bar>x\<bar>\<rceil> - 1))"

definition round_even :: "real \<Rightarrow> int" where
  "round_even q =
     (if q - real_of_int \<lfloor>q\<rfloor> < 1 / 2 then \<lfloor>q\<rfloor>
      else if 1 / 2 < q - real_of_int \<lfloor>q\<rfloor> then \<lfloor>q\<rfloor> + 1
      else if even \<lfloor>q\<rfloor> then \<lfloor>q\<rfloor> else \<lfloor>q\<rfloor> + 1)"

definition fl :: "real \<Rightarrow> jsnum" where
  "fl x =
     (if x = 0 then Finite 0
      else let u = 2 powi (max (exponent x) (- 1022) - 52);
               r = real_of_int (round_even (x / u)) * u
           in if 2 ^ 1024 \<le> \<bar>r\<bar> then (if x < 0 then NegInfinity else Infinity) else Finite r)"

text \<open>
  The operators \<open>+\<close>, \<open>*\<close> and \<open>/\<close> on numbers: the exact result rounded to a double. A
  decimal literal of the source such as \<open>0.621371\<close> is \<open>fl\<close> of its value.
\<close>

fun js_add :: "jsnum \<Rightarrow> jsnum \<Rightarrow> jsnum" where
  "js_add (Finite x) (Finite y) = fl (x + y)"
| "js_add NaN _ = NaN"
| "js_add _ NaN = NaN"
| "js_add Infinity NegInfinity = NaN"
| "js_add NegInfinity Infinity = NaN"
| "js_add Infinity _ = Infinity"
| "js_add _ Infinity = Infinity"
| "js_add NegInfinity _ = NegInfinity"
| "js_add _ NegInfinity = NegInfinity"

fun js_mul :: "jsnum \<Rightarrow> jsnum \<Rightarrow> jsnum" where
  "js_mul (Finite x) (Finite y) = fl (x * y)"
| "js_mul NaN _ = NaN"
| "js_mul _ NaN = NaN"
| "js_mul (Finite x) Infinity = (if x = 0 then NaN else if 0 < x then Infinity else NegInfinity)"
| "js_mul (Finite x) NegInfinity = (if x = 0 then NaN else if 0 < x then NegInfinity else Infinity)"
| "js_mul Infinity (Finite y) = (if y = 0 then NaN else if 0 < y then Infinity else NegInfinity)"
| "js_mul NegInfinity (Finite y) = (if y = 0 then NaN else if 0 < y then NegInfinity else Infinity)"
| "js_mul Infinity Infinity = Infinity"
| "js_mul NegInfinity NegInfinity = Infinity"
| "js_mul Infinity NegInfinity = NegInfinity"
| "js_mul NegInfinity Infinity = NegInfinity"

fun js_div :: "jsnum \<Rightarrow> jsnum \<Rightarrow> jsnum" where
  "js_div (Finite x) (Finite y) =
     (if y = 0 then (if x = 0 then NaN else if 0 < x then Infinity else NegInfinity)
      else fl (x / y))"
| "js_div NaN _ = NaN"
| "js_div _ NaN = NaN"
| "js_div (Finite x) Infinity = Finite 0"
| "js_div (Finite x) NegInfinity = Finite 0"
| "js_div Infinity (Finite y) = (if 0 \<le> y then Infinity else NegInfinity)"
| "js_div NegInfinity (Finite y) = (if 0 \<le> y then NegInfinity else Infinity)"
| "js_div _ _ = NaN"

text \<open>\<open>Math.round\<close> on a number; the result is exact.\<close>

fun js_Math_round :: "jsnum \<Rightarrow> jsnum" where
  "js_Math_round (Finite x) = Finite (real_of_int (Math_round x))"
| "js_Math_round v = v"

text \<open>The decimal rendering of a non-negative integer inside a template literal.\<close>

definition digit_char :: "nat \<Rightarrow> char" where
  "digit_char d = ''0123456789'' ! d"

fun show_nat :: "nat \<Rightarrow> string" where
  "show_nat n = (if n < 10 then [digit_char n]
                 else show_nat (n div 10) @ [digit_char (n mod 10)])"

datatype js_error = Error string | TypeError string | SyntaxError string | FirebaseError string

text \<open>
  What an awaited promise does: it is fulfilled with a value, it is rejected with an
  error, or it never settles, and then the \<open>await\<close> never resumes.
\<close>

datatype 'a promise = Fulfilled 'a | Rejected js_error | Pending

section \<open>Constants\<close>

definition MM_TO_INCHES :: jsnum where
  "MM_TO_INCHES = fl 0.0393701"

definition FETCH_DELAY :: nat where
  "FETCH_DELAY = 100"

section \<open>Weather fetch\<close>

text \<open>
  An hourly series is a JSON array of numbers and nulls. The \<open>hourly\<close> object of the
  response has one series per requested parameter, each of which may be missing.
\<close>

type_synonym series = "jsnum option list"

record hourly =
  precipitation :: "series option"
  temperature_2m :: "series option"
  relative_humidity_2m :: "series option"
  dew_point_2m :: "series option"
  wind_speed_10m :: "series option"
  wind_direction_10m :: "series option"

text \<open>
  The body of a response as \<open>res.json()\<close> sees it: not JSON at all (the call rejects), the
  JSON value \<open>null\<close> (reading \<open>data.hourly\<close> throws), or an object whose \<open>hourly\<close>
  property is present or not.
\<close>

datatype body = NotJson | JsonNull | Json "hourly option"

record response =
  status :: nat
  body :: body

text \<open>\<open>res.ok\<close> of the Fetch standard: the status is in the range 200 to 299.\<close>

definition ok :: "response \<Rightarrow> bool" where
  "ok res = (200 \<le> status res \<and> status res \<le> 299)"

record weather =
  precip24hr :: jsnum
  tempF :: "jsnum option"
  humidity :: "jsnum option"
  dewPointF :: "jsnum option"
  windSpeedMph :: "jsnum option"
  windDir :: "jsnum option"

definition celsiusToFahrenheit :: "jsnum option \<Rightarrow> jsnum option" where
  "celsiusToFahrenheit c =
     (case c of
        Some v \<Rightarrow>
          Some (js_div
                  (js_Math_round
                     (js_mul (js_add (js_div (js_mul v (Finite 9)) (Finite 5)) (Finite 32))
                        (Finite 10)))
                  (Finite 10))
      | None \<Rightarrow> None)"

definition kphToMph :: "jsnum option \<Rightarrow> jsnum option" where
  "kphToMph k =
     (case k of
        Some v \<Rightarrow>
          Some (js_div (js_Math_round (js_mul (js_mul v (fl 0.621371)) (Finite 10))) (Finite 10))
      | None \<Rightarrow> None)"

definition lastVal :: "series option \<Rightarrow> jsnum option" where
  "lastVal arr =
     (case arr of None \<Rightarrow> None
      | Some xs \<Rightarrow> if length xs > 0 then xs ! (length xs - 1) else None)"

text \<open>\<open>v || 0\<close> on a number or null: null, 0 and \<open>NaN\<close> are falsy.\<close>

definition or_zero :: "jsnum option \<Rightarrow> jsnum" where
  "or_zero v =
     (case v of None \<Rightarrow> Finite 0
      | Some NaN \<Rightarrow> Finite 0
      | Some (Finite x) \<Rightarrow> if x = 0 then Finite 0 else Finite x
      | Some NegInfinity \<Rightarrow> NegInfinity
      | Some Infinity \<Rightarrow> Infinity)"

text \<open>\<open>x || []\<close> on a series that may be missing, and \<open>data.hourly || {}\<close>.\<close>

definition or_empty :: "series option \<Rightarrow> series" where
  "or_empty arr = (case arr of None \<Rightarrow> [] | Some xs \<Rightarrow> xs)"

definition no_hourly :: hourly where
  "no_hourly = \<lparr>precipitation = None, temperature_2m = None, relative_humidity_2m = None,
     dew_point_2m = None, wind_speed_10m = None, wind_direction_10m = None\<rparr>"

definition or_no_hourly :: "hourly option \<Rightarrow> hourly" where
  "or_no_hourly d = (case d of None \<Rightarrow> no_hourly | Some h \<Rightarrow> h)"

text \<open>
  \<open>fetchWeatherData(lat, lon)\<close>. The first argument is the network: what the promise
  of \<open>fetch(url)\<close> does for the forecast URL of these coordinates.
\<close>

definition fetchWeatherData ::
  "(jsnum \<Rightarrow> jsnum \<Rightarrow> response promise) \<Rightarrow> jsnum \<Rightarrow> jsnum \<Rightarrow> weather promise" where
  "fetchWeatherData net lat lon =
     (case net lat lon of
        Pending \<Rightarrow> Pending
      | Rejected e \<Rightarrow> Rejected e
      | Fulfilled res \<Rightarrow>
          if \<not> ok res then Rejected (Error (''Weather API error: '' @ show_nat (status res)))
          else (case body res of
                  NotJson \<Rightarrow> Rejected (SyntaxError ''Unexpected token'')
                | JsonNull \<Rightarrow> Rejected (TypeError ''Cannot read properties of null'')
                | Json d \<Rightarrow>
                    let h = or_no_hourly d;
                        precipMm = foldl (\<lambda>sum v. js_add sum (or_zero v)) (Finite 0)
                                     (or_empty (precipitation h))
                    in Fulfilled
                         \<lparr>precip24hr =
                            js_div (js_Math_round (js_mul (js_mul precipMm MM_TO_INCHES) (Finite 100)))
                              (Finite 100),
                          tempF = celsiusToFahrenheit (lastVal (temperature_2m h)),
                          humidity = lastVal (relative_humidity_2m h),
                          dewPointF = celsiusToFahrenheit (lastVal (dew_point_2m h)),
                          windSpeedMph = kphToMph (lastVal (wind_speed_10m h)),
                          windDir = lastVal (wind_direction_10m h)\<rparr>))"

section \<open>Compass labels\<close>

definition dirs :: "string list" where
  "dirs = [''N'', ''NNE'', ''NE'', ''ENE'', ''E'', ''ESE'', ''SE'', ''SSE'',
           ''S'', ''SSW'', ''SW'', ''WSW'', ''W'', ''WNW'', ''NW'', ''NNW'']"

text \<open>
  Reading an array at an integer: \<open>undefined\<close> (here \<open>None\<close>) outside its bounds.
\<close>

definition js_index :: "'a list \<Rightarrow> int \<Rightarrow> 'a option" where
  "js_index xs i = (if 0 \<le> i \<and> i < int (length xs) then Some (xs ! nat i) else None)"

text \<open>
  \<open>windDirLabel(deg)\<close>; \<open>%\<close> is the remainder whose sign is that of the dividend.
\<close>

definition windDirLabel :: "real option \<Rightarrow> string option" where
  "windDirLabel deg =
     (case deg of None \<Rightarrow> Some ''---''
      | Some d \<Rightarrow> js_index dirs (Math_round (d / 22.5) smod 16))"

section \<open>The words of the specification\<close>

text \<open>
  The real number an entry of a series stands for, a null entry counting as 0; the sum
  of the hourly precipitation values; and the most recent value of a series.
\<close>

definition exact_value :: "jsnum option \<Rightarrow> real" where
  "exact_value v = (case v of Some (Finite x) \<Rightarrow> x | _ \<Rightarrow> 0)"

definition spec_precip_sum :: "hourly option \<Rightarrow> real" where
  "spec_precip_sum d =
     (case d of None \<Rightarrow> 0
      | Some h \<Rightarrow> (case precipitation h of None \<Rightarrow> 0
                  | Some vs \<Rightarrow> sum_list (map exact_value vs)))"

definition spec_last :: "series option \<Rightarrow> jsnum option" where
  "spec_last s = (case s of None \<Rightarrow> None | Some xs \<Rightarrow> if xs = [] then None else last xs)"

text \<open>
  \<open>r\<close> is \<open>x\<close> rounded to \<open>n\<close> decimal places: a multiple of \<open>10^-n\<close> that is nearest
  to \<open>x\<close>, the upper one when \<open>x\<close> lies half-way between two.
\<close>

definition rounds_to :: "nat \<Rightarrow> real \<Rightarrow> real \<Rightarrow> bool" where
  "rounds_to n x r =
     (real_of_int \<lfloor>r * 10 ^ n\<rfloor> = r * 10 ^ n
      \<and> x - 1 / (2 * 10 ^ n) < r \<and> r \<le> x + 1 / (2 * 10 ^ n))"

text \<open>The two conversions of units, before rounding.\<close>

definition fahrenheit :: "real \<Rightarrow> real" where
  "fahrenheit c = c * 9 / 5 + 32"

definition mph :: "real \<Rightarrow> real" where
  "mph k = k * 0.621371"

text \<open>
  A precipitation series within the range of hourly rain gauges: at most 1000 entries,
  each null or a finite number that is not negative, a million millimetres at most in
  all.
\<close>

definition nonneg_entry :: "jsnum option \<Rightarrow> bool" where
  "nonneg_entry v = (case v of None \<Rightarrow> True | Some (Finite x) \<Rightarrow> 0 \<le> x | _ \<Rightarrow> False)"

definition plausible_series :: "series \<Rightarrow> bool" where
  "plausible_series vs =
     (list_all nonneg_entry vs \<and> length vs \<le> 1000 \<and> sum_list (map exact_value vs) \<le> 10 ^ 6)"

text \<open>
  \<open>r\<close> is the double nearest to \<open>k / 10\<close>, and both are within half a tenth of \<open>x\<close>, up to
  the rounding errors of the operations.
\<close>

definition near_tenth :: "real \<Rightarrow> real \<Rightarrow> int \<Rightarrow> bool" where
  "near_tenth x r k =
     (fl (real_of_int k / 10) = Finite r
      \<and> \<bar>real_of_int k / 10 - x\<bar> \<le> 1 / 20 + 1 / 10 ^ 10
      \<and> \<bar>r - x\<bar> \<le> 1 / 20 + 2 / 10 ^ 10)"

text \<open>A network that answers every request with status 200 and the given hourly object.\<close>

definition example_reply :: "hourly \<Rightarrow> jsnum \<Rightarrow> jsnum \<Rightarrow> response promise" where
  "example_reply h lat lon = Fulfilled \<lparr>status = 200, body = Json (Some h)\<rparr>"

definition ex_hourly :: hourly where
  "ex_hourly = no_hourly\<lparr>precipitation := Some [Some (Finite 0), None, Some (Finite 2.5)],
      temperature_2m := Some [Some (Finite 18), Some (Finite 20)]\<rparr>"

section \<open>Sites and the site form\<close>

record site_fields =
  name :: string
  state :: string
  lat :: jsnum
  lon :: jsnum

record site = site_fields +
  id' :: string

text \<open>
  The built-in string functions the form calls. They are parameters of the model, so
  what is proved of the form holds for the functions of any JavaScript engine.
\<close>

record builtins =
  trim :: "string \<Rightarrow> string"
  toUpperCase :: "string \<Rightarrow> string"
  parseFloat :: "string \<Rightarrow> jsnum"

definition validCoords :: "jsnum \<Rightarrow> jsnum \<Rightarrow> bool" where
  "validCoords parsedLat parsedLon =
     (\<not> isNaN parsedLat \<and> \<not> isNaN parsedLon
      \<and> js_ge parsedLat (Finite (- 90)) \<and> js_le parsedLat (Finite 90)
      \<and> js_ge parsedLon (Finite (- 180)) \<and> js_le parsedLon (Finite 180))"

text \<open>
  \<open>canSave\<close> is used for its truthiness only; a string is truthy when it is not empty.
  The four strings are the fields of the form as typed.
\<close>

definition canSave :: "builtins \<Rightarrow> string \<Rightarrow> string \<Rightarrow> string \<Rightarrow> string \<Rightarrow> bool" where
  "canSave js name0 state0 lat0 lon0 =
     (trim js name0 \<noteq> [] \<and> trim js state0 \<noteq> []
      \<and> validCoords (parseFloat js lat0) (parseFloat js lon0))"

text \<open>\<open>handleSubmit\<close>: the argument it passes to \<open>onSave\<close>, or \<open>None\<close> when it returns early.\<close>

definition handleSubmit ::
  "builtins \<Rightarrow> string \<Rightarrow> string \<Rightarrow> string \<Rightarrow> string \<Rightarrow> site_fields option" where
  "handleSubmit js name0 state0 lat0 lon0 =
     (if \<not> canSave js name0 state0 lat0 lon0 then None
      else Some \<lparr>name = trim js name0, state = toUpperCase js (trim js state0),
                 lat = parseFloat js lat0, lon = parseFloat js lon0\<rparr>)"

text \<open>Built-ins for the examples: strings that need no trimming, and two coordinates.\<close>

definition example_builtins :: builtins where
  "example_builtins =
     \<lparr>trim = (\<lambda>s. s),
      toUpperCase = (\<lambda>s. if s = ''nd'' then ''ND'' else s),
      parseFloat = (\<lambda>s. if s = ''46.877'' then Finite 46.877
                         else if s = ''-96.789'' then Finite (- 96.789)
                         else if s = ''91'' then Finite 91
                         else NaN)\<rparr>"

section \<open>The document store and the state of the application\<close>

text \<open>
  An observation is the weather record spread into an object with the site's ID and the
  time of capture.
\<close>

record observation = weather +
  siteId :: string
  timestamp :: nat

datatype document = SiteDoc site_fields | ObservationDoc observation

text \<open>The database: for each collection name, the documents it holds under their IDs.\<close>

type_synonym firestore = "string \<Rightarrow> string \<rightharpoonup> document"

datatype event =
    FetchStart jsnum jsnum
  | FetchSettled
  | AddDocStart string
  | AddDocSettled
  | Delay nat
  | ConsoleError string js_error

text \<open>
  Everything the functions below read and write: the database, the state of the two
  hooks, and the trace of what happened, in order. \<open>weatherData\<close> has no entry for a key
  that is absent, \<open>Some None\<close> for null and \<open>Some (Some w)\<close> for a weather record.
\<close>

record world =
  db :: firestore
  sites :: "site list"
  weatherData :: "string \<rightharpoonup> weather option"
  fetching :: bool
  lastUpdated :: "nat option"
  trace :: "event list"

definition emit :: "event list \<Rightarrow> world \<Rightarrow> world" where
  "emit es w = w\<lparr>trace := trace w @ es\<rparr>"

text \<open>
  The three calls into the store. The first argument of each is what the backend does
  with the request; a fulfilled \<open>addDoc\<close> carries the ID the store generated. Updating
  a document that does not exist fails, deleting one succeeds.
\<close>

definition addDoc ::
  "string promise \<Rightarrow> string \<Rightarrow> document \<Rightarrow> world \<Rightarrow> string promise \<times> world" where
  "addDoc backend coll data w =
     (case backend of
        Fulfilled new_id \<Rightarrow> (Fulfilled new_id, w\<lparr>db := (db w)(coll := (db w coll)(new_id \<mapsto> data))\<rparr>)
      | Rejected e \<Rightarrow> (Rejected e, w)
      | Pending \<Rightarrow> (Pending, w))"

definition updateDoc ::
  "unit promise \<Rightarrow> string \<Rightarrow> string \<Rightarrow> document \<Rightarrow> world \<Rightarrow> unit promise \<times> world" where
  "updateDoc backend coll i data w =
     (case backend of
        Fulfilled u \<Rightarrow>
          if db w coll i = None then (Rejected (FirebaseError ''not-found''), w)
          else (Fulfilled (), w\<lparr>db := (db w)(coll := (db w coll)(i \<mapsto> data))\<rparr>)
      | Rejected e \<Rightarrow> (Rejected e, w)
      | Pending \<Rightarrow> (Pending, w))"

definition deleteDoc ::
  "unit promise \<Rightarrow> string \<Rightarrow> string \<Rightarrow> world \<Rightarrow> unit promise \<times> world" where
  "deleteDoc backend coll i w =
     (case backend of
        Fulfilled u \<Rightarrow> (Fulfilled (), w\<lparr>db := (db w)(coll := (db w coll)(i := None))\<rparr>)
      | Rejected e \<Rightarrow> (Rejected e, w)
      | Pending \<Rightarrow> (Pending, w))"

subsection \<open>Firestore helpers\<close>

definition addSiteDoc :: "string promise \<Rightarrow> site_fields \<Rightarrow> world \<Rightarrow> site promise \<times> world" where
  "addSiteDoc backend s w =
     (case addDoc backend ''sites'' (SiteDoc s) w of
        (Fulfilled ref_id, w1) \<Rightarrow> (Fulfilled (site_fields.extend s (site.fields ref_id)), w1)
      | (Rejected e, w1) \<Rightarrow> (Rejected e, w1)
      | (Pending, w1) \<Rightarrow> (Pending, w1))"

definition updateSiteDoc ::
  "unit promise \<Rightarrow> string \<Rightarrow> site_fields \<Rightarrow> world \<Rightarrow> unit promise \<times> world" where
  "updateSiteDoc backend i data w = updateDoc backend ''sites'' i (SiteDoc data) w"

definition deleteSiteDoc :: "unit promise \<Rightarrow> string \<Rightarrow> world \<Rightarrow> unit promise \<times> world" where
  "deleteSiteDoc backend i w = deleteDoc backend ''sites'' i w"

subsection \<open>Observation logging\<close>

text \<open>
  \<open>logObservation(siteId, weather)\<close>; \<open>now\<close> is what \<open>Timestamp.now()\<close> returns. The
  whole body is inside \<open>try\<close>, and the handler writes to the console and returns.
\<close>

definition logObservation ::
  "string promise \<Rightarrow> nat \<Rightarrow> string \<Rightarrow> weather \<Rightarrow> world \<Rightarrow> unit promise \<times> world" where
  "logObservation backend now sid wthr w =
     (case addDoc backend ''observations''
             (ObservationDoc (weather.extend wthr (observation.fields sid now)))
             (emit [AddDocStart sid] w) of
        (Fulfilled ref_id, w1) \<Rightarrow> (Fulfilled (), emit [AddDocSettled] w1)
      | (Rejected e, w1) \<Rightarrow>
          (Fulfilled (),
           emit [AddDocSettled, ConsoleError (''Failed to log observation for '' @ sid @ '':'') e] w1)
      | (Pending, w1) \<Rightarrow> (Pending, w1))"

definition delay :: "nat \<Rightarrow> world \<Rightarrow> world" where
  "delay ms w = emit [Delay ms] w"

subsection \<open>The hook of the site list\<close>

definition add :: "string promise \<Rightarrow> site_fields \<Rightarrow> world \<Rightarrow> site promise \<times> world" where
  "add backend s w =
     (case addSiteDoc backend s w of
        (Fulfilled newSite, w1) \<Rightarrow> (Fulfilled newSite, w1\<lparr>sites := sites w1 @ [newSite]\<rparr>)
      | (Rejected e, w1) \<Rightarrow> (Rejected e, w1)
      | (Pending, w1) \<Rightarrow> (Pending, w1))"

text \<open>
  \<open>update(id, data)\<close>, for the data the form submits: all four fields of the site.
\<close>

definition update ::
  "unit promise \<Rightarrow> string \<Rightarrow> site_fields \<Rightarrow> world \<Rightarrow> unit promise \<times> world" where
  "update backend i data w =
     (case updateSiteDoc backend i data w of
        (Fulfilled u, w1) \<Rightarrow>
          (Fulfilled (),
           w1\<lparr>sites := map (\<lambda>s. if id' s = i then site_fields.extend data (site.fields (id' s)) else s)
                          (sites w1)\<rparr>)
      | (Rejected e, w1) \<Rightarrow> (Rejected e, w1)
      | (Pending, w1) \<Rightarrow> (Pending, w1))"

definition remove :: "unit promise \<Rightarrow> string \<Rightarrow> world \<Rightarrow> unit promise \<times> world" where
  "remove backend i w =
     (case deleteSiteDoc backend i w of
        (Fulfilled u, w1) \<Rightarrow> (Fulfilled (), w1\<lparr>sites := filter (\<lambda>s. id' s \<noteq> i) (sites w1)\<rparr>)
      | (Rejected e, w1) \<Rightarrow> (Rejected e, w1)
      | (Pending, w1) \<Rightarrow> (Pending, w1))"

section \<open>The weather hook\<close>

text \<open>
  What the outside does during one call of \<open>fetchAll\<close>: the network at the request for
  the site at index \<open>i\<close>, the store at the \<open>addDoc\<close> for that site, and the clock, read at
  each site and, with the length of the list, when the loop is over.
\<close>

record env =
  net :: "nat \<Rightarrow> jsnum \<Rightarrow> jsnum \<Rightarrow> response promise"
  store :: "nat \<Rightarrow> string promise"
  clock :: "nat \<Rightarrow> nat"

type_synonym results = "string \<rightharpoonup> weather option"

text \<open>
  The \<open>try\<close> statement of the loop for the site at index \<open>i\<close>. An \<open>await\<close> on a promise
  that never settles leaves the call pending for ever. A rejection of either awaited
  call reaches the \<open>catch\<close> clause.
\<close>

definition try_site ::
  "env \<Rightarrow> site \<Rightarrow> nat \<Rightarrow> results \<Rightarrow> world \<Rightarrow> results promise \<times> world" where
  "try_site ev s i res w =
     (let w1 = emit [FetchStart (lat s) (lon s)] w;
          failed = ''Failed to fetch weather for '' @ name s @ '':''
      in case fetchWeatherData (net ev i) (lat s) (lon s) of
           Pending \<Rightarrow> (Pending, w1)
         | Rejected e \<Rightarrow>
             (Fulfilled (res(id' s \<mapsto> None)), emit [FetchSettled, ConsoleError failed e] w1)
         | Fulfilled wthr \<Rightarrow>
             (case logObservation (store ev i) (clock ev i) (id' s) wthr (emit [FetchSettled] w1) of
                (Pending, w2) \<Rightarrow> (Pending, w2)
              | (Rejected e, w2) \<Rightarrow>
                  (Fulfilled (res(id' s \<mapsto> None)), emit [ConsoleError failed e] w2)
              | (Fulfilled u, w2) \<Rightarrow> (Fulfilled (res(id' s \<mapsto> Some wthr)), w2)))"

text \<open>The \<open>for\<close> loop of \<open>fetchAll\<close>, from index \<open>i\<close> on.\<close>

function fetch_loop ::
  "env \<Rightarrow> site list \<Rightarrow> nat \<Rightarrow> results \<Rightarrow> world \<Rightarrow> results promise \<times> world" where
  "fetch_loop ev sitesToFetch i res w =
     (if i < length sitesToFetch then
        (case try_site ev (sitesToFetch ! i) i res w of
           (Fulfilled res1, w1) \<Rightarrow>
             fetch_loop ev sitesToFetch (i + 1) res1
               (if int i < int (length sitesToFetch) - 1 then delay FETCH_DELAY w1 else w1)
         | (Rejected e, w1) \<Rightarrow> (Rejected e, w1)
         | (Pending, w1) \<Rightarrow> (Pending, w1))
      else (Fulfilled res, w))"
  by pat_completeness auto
termination
  by (relation "measure (\<lambda>(ev, sitesToFetch, i, res, w). length sitesToFetch - i)") auto

text \<open>
  \<open>fetchAll(sitesToFetch)\<close>. Its callers pass the array of the site list, never null.
  The state setters are applied in the order of the calls; \<open>setWeatherData\<close> merges into
  the cache as it is at that moment.
\<close>

definition fetchAll :: "env \<Rightarrow> site list \<Rightarrow> world \<Rightarrow> unit promise \<times> world" where
  "fetchAll ev sitesToFetch w =
     (if length sitesToFetch = 0 then (Fulfilled (), w)
      else (case fetch_loop ev sitesToFetch 0 Map.empty (w\<lparr>fetching := True\<rparr>) of
              (Fulfilled res, w1) \<Rightarrow>
                (Fulfilled (),
                 w1\<lparr>weatherData := weatherData w1 ++ res,
                    lastUpdated := Some (clock ev (length sitesToFetch)),
                    fetching := False\<rparr>)
            | (Rejected e, w1) \<Rightarrow> (Rejected e, w1)
            | (Pending, w1) \<Rightarrow> (Pending, w1)))"

declare fetch_loop.simps [simp del]

section \<open>What one sync cycle is expected to do\<close>

text \<open>
  Both promises awaited for the site at index \<open>i\<close> settle: the request to the weather
  service and the append to the history collection.
\<close>

definition settles :: "env \<Rightarrow> site \<Rightarrow> nat \<Rightarrow> bool" where
  "settles ev s i = (net ev i (lat s) (lon s) \<noteq> Pending \<and> store ev i \<noteq> Pending)"

text \<open>What the cycle records for a site: its weather record, or null when the fetch failed.\<close>

definition site_result :: "env \<Rightarrow> site \<Rightarrow> nat \<Rightarrow> weather option" where
  "site_result ev s i =
     (case fetchWeatherData (net ev i) (lat s) (lon s) of
        Fulfilled wthr \<Rightarrow> Some wthr | Rejected e \<Rightarrow> None | Pending \<Rightarrow> None)"

text \<open>The result buffer after the sites of a list, the first of them at index \<open>i\<close>.\<close>

fun collect :: "env \<Rightarrow> site list \<Rightarrow> nat \<Rightarrow> results \<Rightarrow> results" where
  "collect ev [] i res = res"
| "collect ev (s # rest) i res = collect ev rest (i + 1) (res(id' s \<mapsto> site_result ev s i))"

text \<open>
  The requests and delays of a cycle: for each site in order a request that settles
  before anything else starts, and the fixed delay between two sites.
\<close>

fun schedule :: "site list \<Rightarrow> event list" where
  "schedule [] = []"
| "schedule (s # rest) =
     FetchStart (lat s) (lon s) # FetchSettled
       # (if rest = [] then [] else Delay FETCH_DELAY # schedule rest)"

text \<open>
  Everything that happens for the site at index \<open>i\<close>, and during a whole cycle over a
  list whose first site is at index \<open>i\<close> when every promise settles.
\<close>

definition site_events :: "env \<Rightarrow> site \<Rightarrow> nat \<Rightarrow> event list" where
  "site_events ev s i =
     FetchStart (lat s) (lon s) # FetchSettled #
       (case fetchWeatherData (net ev i) (lat s) (lon s) of
          Rejected e \<Rightarrow> [ConsoleError (''Failed to fetch weather for '' @ name s @ '':'') e]
        | Fulfilled wthr \<Rightarrow>
            AddDocStart (id' s) #
              (case store ev i of
                 Rejected e \<Rightarrow>
                   [AddDocSettled, ConsoleError (''Failed to log observation for '' @ id' s @ '':'') e]
               | Fulfilled r \<Rightarrow> [AddDocSettled]
               | Pending \<Rightarrow> [])
        | Pending \<Rightarrow> [])"

fun cycle_events :: "env \<Rightarrow> site list \<Rightarrow> nat \<Rightarrow> event list" where
  "cycle_events ev [] i = []"
| "cycle_events ev (s # rest) i =
     site_events ev s i @ (if rest = [] then [] else [Delay FETCH_DELAY])
       @ cycle_events ev rest (i + 1)"

fun paced :: "event \<Rightarrow> bool" where
  "paced (FetchStart a b) = True"
| "paced FetchSettled = True"
| "paced (Delay ms) = True"
| "paced _ = False"

fun is_fetch :: "event \<Rightarrow> bool" where
  "is_fetch (FetchStart a b) = True"
| "is_fetch _ = False"

fun is_delay :: "event \<Rightarrow> bool" where
  "is_delay (Delay ms) = True"
| "is_delay _ = False"

text \<open>No request starts while another is in flight; \<open>busy\<close> says that one is.\<close>

fun one_at_a_time :: "bool \<Rightarrow> event list \<Rightarrow> bool" where
  "one_at_a_time busy [] = True"
| "one_at_a_time busy (FetchStart a b # es) = (\<not> busy \<and> one_at_a_time True es)"
| "one_at_a_time busy (FetchSettled # es) = (busy \<and> one_at_a_time False es)"
| "one_at_a_time busy (e # es) = one_at_a_time busy es"

text \<open>The state of the hooks is the same in two worlds.\<close>

definition same_hooks :: "world \<Rightarrow> world \<Rightarrow> bool" where
  "same_hooks w w' =
     (weatherData w' = weatherData w \<and> fetching w' = fetching w
      \<and> lastUpdated w' = lastUpdated w \<and> sites w' = sites w)"

section \<open>Example data\<close>

definition site_a :: site where
  "site_a = \<lparr>name = ''Fargo West'', state = ''ND'', lat = Finite 46.877, lon = Finite (- 96.789),
              id' = ''a''\<rparr>"

definition site_b :: site where
  "site_b = \<lparr>name = ''Rochester'', state = ''MN'', lat = Finite 44, lon = Finite (- 93),
              id' = ''b''\<rparr>"

definition world0 :: world where
  "world0 = \<lparr>db = (\<lambda>c. Map.empty), sites = [site_a, site_b], weatherData = Map.empty,
              fetching = False, lastUpdated = None, trace = []\<rparr>"

text \<open>A world whose cache has an entry, null, for a site that is no longer in the list.\<close>

definition world1 :: world where
  "world1 = world0\<lparr>weatherData := [''c'' \<mapsto> None]\<rparr>"

text \<open>
  The first request is answered with the precipitation series 0, 0.5, 1.0 and the
  second with status 500; every append to the history collection succeeds.
\<close>

definition ex_env :: env where
  "ex_env =
     \<lparr>net = (\<lambda>i la lo.
         if i = 0 then example_reply (no_hourly\<lparr>precipitation :=
                                  Some [Some (Finite 0), Some (Finite 0.5), Some (Finite 1.0)]\<rparr>) la lo
         else Fulfilled \<lparr>status = 500, body = NotJson\<rparr>),
      store = (\<lambda>i. Fulfilled ''o1''),
      clock = (\<lambda>i. 1000 + i)\<rparr>"

text \<open>The weather record of the first request.\<close>

definition weather_a :: weather where
  "weather_a = \<lparr>precip24hr = fl 0.06, tempF = None, humidity = None, dewPointF = None,
                 windSpeedMph = None, windDir = None\<rparr>"

text \<open>A world whose database holds both sites and one observation of the first.\<close>

definition world2 :: world where
  "world2 = world0\<lparr>db := (\<lambda>c.
      if c = ''sites'' then
        [''a'' \<mapsto> SiteDoc \<lparr>name = ''Fargo West'', state = ''ND'', lat = Finite 46.877,
                             lon = Finite (- 96.789)\<rparr>,
         ''b'' \<mapsto> SiteDoc \<lparr>name = ''Rochester'', state = ''MN'', lat = Finite 44,
                             lon = Finite (- 93)\<rparr>]
      else if c = ''observations'' then
        [''o1'' \<mapsto> ObservationDoc (weather.extend weather_a (observation.fields ''a'' 1000))]
      else Map.empty)\<rparr>"

text \<open>The same, with a store that refuses every append, and with one that never answers.\<close>

definition failing_store_env :: env where
  "failing_store_env = ex_env\<lparr>store := (\<lambda>i. Rejected (FirebaseError ''unavailable''))\<rparr>"

definition hanging_store_env :: env where
  "hanging_store_env = ex_env\<lparr>store := (\<lambda>i. Pending)\<rparr>"

text \<open>
  The first request is answered with status 500 and the second with the precipitation
  series; the append for the first site would succeed and every later one never settles.
\<close>

definition late_hang_env :: env where
  "late_hang_env =
     \<lparr>net = (\<lambda>i la lo.
         if i = 0 then Fulfilled \<lparr>status = 500, body = NotJson\<rparr>
         else example_reply (no_hourly\<lparr>precipitation :=
                Some [Some (Finite 0), Some (Finite 0.5), Some (Finite 1.0)]\<rparr>) la lo),
      store = (\<lambda>i. if i = 0 then Fulfilled ''o1'' else Pending),
      clock = (\<lambda>i. 1000 + i)\<rparr>"

text \<open>A world whose cache holds a weather record of an earlier cycle for the second site.\<close>

definition world3 :: world where
  "world3 = world0\<lparr>weatherData := [''b'' \<mapsto> Some weather_a]\<rparr>"

section \<open>Double arithmetic\<close>

text \<open>
  Rounding to the nearest double moves a number by at most half a unit in the last place.
  A double is computed from a certificate: the scaling that brings the number between
  \<open>2^52\<close> and \<open>2^53\<close>, and the integer nearest to the scaled number.
\<close>

lemma round_even_near: "\<bar>real_of_int (round_even q) - q\<bar> \<le> 1 / 2"
  unfolding round_even_def by (auto split: if_splits)

lemma round_even_eqI:
  assumes "\<bar>q - real_of_int n\<bar> < 1 / 2"
  shows "round_even q = n"
proof -
  have "\<bar>real_of_int (round_even q) - q\<bar> \<le> 1 / 2" by (rule round_even_near)
  with assms have "\<bar>real_of_int (round_even q) - real_of_int n\<bar> < 1" by linarith
  then have "\<bar>real_of_int (round_even q - n)\<bar> < 1" by simp
  then have "\<bar>round_even q - n\<bar> < 1" by linarith
  then show ?thesis by linarith
qed

lemma exponent_lower:
  assumes "x \<noteq> 0"
  shows "2 powi (exponent x) \<le> \<bar>x\<bar>"
proof (cases "1 \<le> \<bar>x\<bar>")
  case True
  let ?m = "\<lfloor>\<bar>x\<bar>\<rfloor>"
  have m: "0 < ?m" using True by linarith
  have b: "1 \<le> bitlen ?m" using m bitlen_eq_zero_iff [of ?m] bitlen_nonneg [of ?m]
    by (cases "bitlen ?m = 0") auto
  have "(2::int) ^ nat (bitlen ?m - 1) \<le> ?m" using bitlen_bounds [OF m] by simp
  then have "real_of_int (2 ^ nat (bitlen ?m - 1)) \<le> real_of_int ?m"
    by (rule of_int_le_iff [THEN iffD2])
  moreover have "real_of_int ?m \<le> \<bar>x\<bar>" by linarith
  moreover have "real_of_int (2 ^ nat (bitlen ?m - 1)) = (2::real) ^ nat (bitlen ?m - 1)" by simp
  ultimately have "(2::real) ^ nat (bitlen ?m - 1) \<le> \<bar>x\<bar>" by linarith
  moreover have "(2::real) powi (bitlen ?m - 1) = 2 ^ nat (bitlen ?m - 1)"
    using b by (simp add: power_int_def)
  ultimately show ?thesis using True by (simp add: exponent_def)
next
  case False
  let ?k = "\<lceil>1 / \<bar>x\<bar>\<rceil>"
  have x: "0 < \<bar>x\<bar>" "\<bar>x\<bar> < 1" using assms False by auto
  then have "1 < 1 / \<bar>x\<bar>" by simp
  then have k: "0 < ?k - 1" by linarith
  let ?b = "bitlen (?k - 1)"
  have "?k - 1 < 2 ^ nat ?b" using bitlen_bounds [OF k] by simp
  then have "?k \<le> 2 ^ nat ?b" by linarith
  then have "real_of_int ?k \<le> real_of_int (2 ^ nat ?b)" by (rule of_int_le_iff [THEN iffD2])
  moreover have "1 / \<bar>x\<bar> \<le> real_of_int ?k" by linarith
  moreover have "real_of_int (2 ^ nat ?b) = (2::real) ^ nat ?b" by simp
  ultimately have "1 / \<bar>x\<bar> \<le> 2 ^ nat ?b" by linarith
  then have "1 \<le> 2 ^ nat ?b * \<bar>x\<bar>" using x by (simp add: field_simps)
  then have "1 / 2 ^ nat ?b \<le> \<bar>x\<bar>" by (simp add: field_simps)
  moreover have "(2::real) powi (- ?b) = 1 / 2 ^ nat ?b"
    using bitlen_nonneg [of "?k - 1"] by (simp add: power_int_def field_simps)
  ultimately show ?thesis using False by (simp add: exponent_def)
qed

lemma exponent_upper:
  assumes "x \<noteq> 0"
  shows "\<bar>x\<bar> < 2 powi (exponent x + 1)"
proof (cases "1 \<le> \<bar>x\<bar>")
  case True
  let ?m = "\<lfloor>\<bar>x\<bar>\<rfloor>"
  have m: "0 < ?m" using True by linarith
  have "?m < 2 ^ nat (bitlen ?m)" using bitlen_bounds [OF m] by simp
  then have "?m + 1 \<le> 2 ^ nat (bitlen ?m)" by linarith
  then have "real_of_int (?m + 1) \<le> real_of_int (2 ^ nat (bitlen ?m))"
    by (rule of_int_le_iff [THEN iffD2])
  moreover have "\<bar>x\<bar> < real_of_int (?m + 1)" by linarith
  moreover have "real_of_int (2 ^ nat (bitlen ?m)) = (2::real) ^ nat (bitlen ?m)" by simp
  ultimately have "\<bar>x\<bar> < (2::real) ^ nat (bitlen ?m)" by linarith
  moreover have "(2::real) powi (bitlen ?m) = 2 ^ nat (bitlen ?m)"
    using bitlen_nonneg [of ?m] by (simp add: power_int_def)
  ultimately show ?thesis using True by (simp add: exponent_def)
next
  case False
  let ?k = "\<lceil>1 / \<bar>x\<bar>\<rceil>"
  have x: "0 < \<bar>x\<bar>" "\<bar>x\<bar> < 1" using assms False by auto
  then have "1 < 1 / \<bar>x\<bar>" by simp
  then have k: "0 < ?k - 1" by linarith
  let ?b = "bitlen (?k - 1)"
  have b: "1 \<le> ?b" using k bitlen_eq_zero_iff [of "?k - 1"] bitlen_nonneg [of "?k - 1"]
    by (cases "?b = 0") auto
  have "(2::int) ^ nat (?b - 1) \<le> ?k - 1" using bitlen_bounds [OF k] by simp
  then have "real_of_int (2 ^ nat (?b - 1)) \<le> real_of_int (?k - 1)"
    by (rule of_int_le_iff [THEN iffD2])
  moreover have "real_of_int (?k - 1) < 1 / \<bar>x\<bar>" by linarith
  moreover have "real_of_int (2 ^ nat (?b - 1)) = (2::real) ^ nat (?b - 1)" by simp
  ultimately have "(2::real) ^ nat (?b - 1) < 1 / \<bar>x\<bar>" by linarith
  then have "2 ^ nat (?b - 1) * \<bar>x\<bar> < 1" using x by (simp add: field_simps)
  then have "\<bar>x\<bar> < 1 / 2 ^ nat (?b - 1)" by (simp add: field_simps)
  moreover have "(2::real) powi (- ?b + 1) = 1 / 2 ^ nat (?b - 1)"
  proof -
    have "(2::real) powi (- ?b + 1) = 2 powi (- (?b - 1))" by simp
    also have "\<dots> = 1 / 2 ^ nat (?b - 1)"
      using b by (simp only: power_int_minus) (simp add: power_int_def field_simps)
    finally show ?thesis .
  qed
  ultimately show ?thesis using False by (simp add: exponent_def)
qed

lemma exponent_eqI:
  assumes "2 powi e \<le> \<bar>x\<bar>" and "\<bar>x\<bar> < 2 powi (e + 1)"
  shows "exponent x = e"
proof -
  have "0 < \<bar>x\<bar>" using assms(1) zero_less_power_int [of "2::real" e] by linarith
  then have nz: "x \<noteq> 0" by auto
  note l = exponent_lower [OF nz] and u = exponent_upper [OF nz]
  have "\<not> e < exponent x"
  proof
    assume "e < exponent x"
    then have "e + 1 \<le> exponent x" by simp
    then have "(2::real) powi (e + 1) \<le> 2 powi (exponent x)"
      by (rule power_int_increasing) simp
    with l assms(2) show False by linarith
  qed
  moreover have "\<not> exponent x < e"
  proof
    assume "exponent x < e"
    then have "exponent x + 1 \<le> e" by simp
    then have "(2::real) powi (exponent x + 1) \<le> 2 powi e"
      by (rule power_int_increasing) simp
    with u assms(1) show False by linarith
  qed
  ultimately show ?thesis by linarith
qed

lemma fl_error:
  assumes "\<bar>x\<bar> \<le> B" and "B \<le> 2 ^ 1000"
  shows "\<exists>r. fl x = Finite r \<and> \<bar>r - x\<bar> \<le> B / 2 ^ 53 + 1 / 2 ^ 1075"
proof (cases "x = 0")
  case True
  then show ?thesis using assms by (simp add: fl_def)
next
  case False
  define e where "e = max (exponent x) (- 1022)"
  define u :: real where "u = 2 powi (e - 52)"
  define r where "r = real_of_int (round_even (x / u)) * u"
  have u: "0 < u" by (simp add: u_def)
  have "\<bar>real_of_int (round_even (x / u)) - x / u\<bar> \<le> 1 / 2" by (rule round_even_near)
  then have "\<bar>real_of_int (round_even (x / u)) - x / u\<bar> * u \<le> 1 / 2 * u"
    using u by (simp add: mult_right_mono)
  moreover have "\<bar>real_of_int (round_even (x / u)) - x / u\<bar> * u = \<bar>r - x\<bar>"
  proof -
    have "(real_of_int (round_even (x / u)) - x / u) * u = r - x"
      using u by (simp add: r_def left_diff_distrib)
    then have "\<bar>r - x\<bar> = \<bar>real_of_int (round_even (x / u)) - x / u\<bar> * \<bar>u\<bar>"
      by (simp only: abs_mult [symmetric])
    then show ?thesis using u by simp
  qed
  ultimately have d: "\<bar>r - x\<bar> \<le> u / 2" by simp
  have h: "u / 2 \<le> \<bar>x\<bar> / 2 ^ 53 + 1 / 2 ^ 1075"
  proof (cases "- 1022 \<le> exponent x")
    case True
    then have "e = exponent x" by (simp add: e_def)
    then have "u = 2 powi (exponent x) * 2 powi (- 52)"
      by (simp add: u_def power_int_diff power_int_minus field_simps)
    then have "u / 2 = 2 powi (exponent x) / 2 ^ 53"
      by (simp add: power_int_minus field_simps)
    also have "\<dots> \<le> \<bar>x\<bar> / 2 ^ 53"
      using exponent_lower [OF False] by (simp add: divide_right_mono)
    finally show ?thesis by simp
  next
    case False
    then have "e = - 1022" by (simp add: e_def)
    then have "u = 1 / 2 ^ 1074" by (simp add: u_def power_int_def field_simps)
    then show ?thesis by simp
  qed
  have b: "\<bar>r - x\<bar> \<le> B / 2 ^ 53 + 1 / 2 ^ 1075"
  proof -
    have "\<bar>x\<bar> / 2 ^ 53 \<le> B / 2 ^ 53" using assms(1) by (simp add: divide_right_mono)
    with d h show ?thesis by linarith
  qed
  have "\<bar>r\<bar> \<le> \<bar>x\<bar> + \<bar>r - x\<bar>" by linarith
  also have "\<dots> \<le> B + (B / 2 ^ 53 + 1 / 2 ^ 1075)" using assms(1) b by linarith
  also have "\<dots> \<le> 2 ^ 1000 + (2 ^ 1000 / 2 ^ 53 + 1)"
  proof -
    have "B / 2 ^ 53 \<le> 2 ^ 1000 / (2 ^ 53 :: real)" using assms(2) by (simp add: divide_right_mono)
    moreover have "1 / 2 ^ 1075 \<le> (1::real)" by simp
    ultimately show ?thesis using assms(2) by linarith
  qed
  also have "\<dots> < 2 ^ 1024" by simp
  finally have "\<not> 2 ^ 1024 \<le> \<bar>r\<bar>" by simp
  then have "fl x = Finite r"
    using False by (simp add: fl_def Let_def r_def u_def e_def)
  with b show ?thesis by blast
qed

lemma fl_near:
  assumes "\<bar>x\<bar> \<le> B" and "1 \<le> B" and "B \<le> 10 ^ 12"
  shows "\<exists>r. fl x = Finite r \<and> \<bar>r - x\<bar> \<le> B / 10 ^ 15"
proof -
  have "B \<le> 2 ^ 1000"
  proof -
    have "(10::real) ^ 12 \<le> 2 ^ 1000" by simp
    with assms(3) show ?thesis by linarith
  qed
  from fl_error [OF assms(1) this] obtain r where
    r: "fl x = Finite r" "\<bar>r - x\<bar> \<le> B / 2 ^ 53 + 1 / 2 ^ 1075" by blast
  have "B / 2 ^ 53 + 1 / 2 ^ 1075 \<le> B / 10 ^ 15"
  proof -
    have "(1::real) / 2 ^ 1075 \<le> 1 / 2 ^ 53" by simp
    also have "\<dots> \<le> B / 2 ^ 53" using assms(2) by (simp add: divide_right_mono)
    finally have "B / 2 ^ 53 + 1 / 2 ^ 1075 \<le> 2 * B / 2 ^ 53" by simp
    also have "\<dots> \<le> B / 10 ^ 15" using assms(2) by simp
    finally show ?thesis .
  qed
  with r show ?thesis by (meson order_trans)
qed

text \<open>Evaluating \<open>fl\<close> from the significand and the scale of the result.\<close>

lemma fl_eq_down:
  fixes n :: int and k :: nat
  assumes "k \<le> 1074" and "2 ^ 52 \<le> \<bar>x\<bar> * 2 ^ k" and "\<bar>x\<bar> * 2 ^ k < 2 ^ 53"
    and "round_even (x * 2 ^ k) = n"
  shows "fl x = Finite (real_of_int n / 2 ^ k)"
proof -
  have p: "(2::real) powi (52 - int k) = 2 ^ 52 / 2 ^ k"
    by (simp add: power_int_diff)
  have p1: "(2::real) powi (52 - int k + 1) = 2 ^ 53 / 2 ^ k"
  proof -
    have "(2::real) powi (52 - int k + 1) = 2 powi (53 - int k)" by (simp add: algebra_simps)
    then show ?thesis by (simp add: power_int_diff)
  qed
  have "2 ^ 52 / 2 ^ k \<le> \<bar>x\<bar>" using assms(2) by (simp add: field_simps)
  moreover have "\<bar>x\<bar> < 2 ^ 53 / 2 ^ k" using assms(3) by (simp add: field_simps)
  ultimately have e: "exponent x = 52 - int k"
    using exponent_eqI [of "52 - int k" x] p p1 by simp
  have "(0::real) < 2 ^ 52 / 2 ^ k" by simp
  with \<open>2 ^ 52 / 2 ^ k \<le> \<bar>x\<bar>\<close> have "0 < \<bar>x\<bar>" by linarith
  then have nz: "x \<noteq> 0" by auto
  have m: "max (exponent x) (- 1022) - 52 = - int k" using e assms(1) by simp
  have u: "(2::real) powi (- int k) = 1 / 2 ^ k" by (simp add: power_int_minus field_simps)
  have q: "x / (1 / 2 ^ k) = x * 2 ^ k" by simp
  have r: "round_even (x * 2 ^ k) = n" by (rule assms(4))
  have "\<bar>real_of_int n\<bar> < 2 ^ 53 + 1"
  proof -
    have "\<bar>x * 2 ^ k\<bar> = \<bar>x\<bar> * 2 ^ k" by (simp add: abs_mult)
    moreover have "\<bar>real_of_int n - x * 2 ^ k\<bar> \<le> 1 / 2"
      using round_even_near [of "x * 2 ^ k"] r by simp
    ultimately show ?thesis using assms(3) by linarith
  qed
  moreover have "\<bar>real_of_int n / 2 ^ k\<bar> \<le> \<bar>real_of_int n\<bar>"
  proof -
    have "(1::real) \<le> 2 ^ k" by simp
    then have "\<bar>real_of_int n\<bar> / 2 ^ k \<le> \<bar>real_of_int n\<bar> / 1"
      by (intro divide_left_mono) auto
    then show ?thesis by simp
  qed
  moreover have "(2::real) ^ 53 + 1 \<le> 2 ^ 1024" by simp
  ultimately have "\<not> 2 ^ 1024 \<le> \<bar>real_of_int n / 2 ^ k\<bar>" by linarith
  then show ?thesis
    using nz by (simp add: fl_def Let_def m u q r del: abs_divide)
qed

lemma fl_eq_up:
  fixes n :: int and k :: nat
  assumes "k \<le> 900" and "2 ^ 52 * 2 ^ k \<le> \<bar>x\<bar>" and "\<bar>x\<bar> < 2 ^ 53 * 2 ^ k"
    and "round_even (x / 2 ^ k) = n"
  shows "fl x = Finite (real_of_int n * 2 ^ k)"
proof -
  have p: "(2::real) powi (52 + int k) = 2 ^ 52 * 2 ^ k"
    by (simp add: power_int_add)
  have p1: "(2::real) powi (52 + int k + 1) = 2 ^ 53 * 2 ^ k"
  proof -
    have "(2::real) powi (52 + int k + 1) = 2 powi (53 + int k)" by (simp add: algebra_simps)
    then show ?thesis by (simp add: power_int_add)
  qed
  have e: "exponent x = 52 + int k"
    using exponent_eqI [of "52 + int k" x] p p1 assms(2) assms(3) by simp
  have "(0::real) < 2 ^ 52 * 2 ^ k" by simp
  with assms(2) have "0 < \<bar>x\<bar>" by linarith
  then have nz: "x \<noteq> 0" by auto
  have m: "max (exponent x) (- 1022) - 52 = int k" using e by simp
  have r: "round_even (x / 2 ^ k) = n" by (rule assms(4))
  have "\<bar>x / 2 ^ k\<bar> < 2 ^ 53"
  proof -
    have "\<bar>x / 2 ^ k\<bar> = \<bar>x\<bar> / 2 ^ k" by simp
    with assms(3) show ?thesis by (simp add: field_simps)
  qed
  moreover have "\<bar>real_of_int n - x / 2 ^ k\<bar> \<le> 1 / 2"
    using round_even_near [of "x / 2 ^ k"] r by simp
  ultimately have "\<bar>real_of_int n\<bar> < 2 ^ 53 + 1" by linarith
  then have "\<bar>real_of_int n\<bar> \<le> 2 ^ 54" by simp
  then have "\<bar>real_of_int n\<bar> * 2 ^ k \<le> 2 ^ 54 * 2 ^ k" by (simp add: mult_right_mono)
  also have "\<dots> = (2::real) ^ (54 + k)" by (simp add: power_add)
  also have "\<dots> < 2 ^ 1024" using assms(1) by (intro power_strict_increasing) auto
  finally have "\<not> 2 ^ 1024 \<le> \<bar>real_of_int n * 2 ^ k\<bar>" by (simp add: abs_mult)
  then show ?thesis
    using nz by (simp add: fl_def Let_def m r del: abs_mult)
qed

lemma fl_near_lit:
  assumes "\<bar>x\<bar> \<le> B" and "1 \<le> B" and "B \<le> 1000000000000"
  shows "\<exists>r. fl x = Finite r \<and> \<bar>r - x\<bar> \<le> B / 1000000000000000"
  using fl_near [of x B] assms by simp

lemma Math_round_near: "\<bar>real_of_int (Math_round y) - y\<bar> \<le> 1 / 2"
  unfolding Math_round_def by linarith

lemma or_zero_exact:
  "nonneg_entry v \<Longrightarrow> or_zero v = Finite (exact_value v) \<and> 0 \<le> exact_value v"
  by (auto simp: nonneg_entry_def or_zero_def exact_value_def split: option.splits jsnum.splits)

lemma exact_sum_nonneg:
  "list_all nonneg_entry vs \<Longrightarrow> 0 \<le> sum_list (map exact_value vs)"
  by (induction vs) (auto dest: or_zero_exact)

lemma precip_sum_near:
  assumes "list_all nonneg_entry vs" and "0 \<le> A"
    and "A + sum_list (map exact_value vs) \<le> 1000000"
    and "\<bar>a - A\<bar> \<le> E" and "E + real (length vs) * (2 / 1000000000) \<le> 1"
  shows "\<exists>a'. foldl (\<lambda>sum v. js_add sum (or_zero v)) (Finite a) vs = Finite a'
           \<and> \<bar>a' - (A + sum_list (map exact_value vs))\<bar> \<le> E + real (length vs) * (2 / 1000000000)"
  using assms
proof (induction vs arbitrary: a A E)
  case Nil
  then show ?case by simp
next
  case (Cons v vs)
  let ?x = "exact_value v"
  have v: "or_zero v = Finite ?x" "0 \<le> ?x" using Cons.prems(1) or_zero_exact [of v] by simp_all
  have rest: "list_all nonneg_entry vs" using Cons.prems(1) by simp
  have r0: "0 \<le> sum_list (map exact_value vs)" using rest by (rule exact_sum_nonneg)
  have e0: "0 \<le> E" using Cons.prems(4) by linarith
  have len: "0 \<le> real (length vs) * (2 / 1000000000)" by simp
  have "0 \<le> real (length (v # vs)) * (2 / 1000000000)" by simp
  with Cons.prems(5) have e1: "E \<le> 1" by linarith
  have s3: "A + ?x + sum_list (map exact_value vs) \<le> 1000000" using Cons.prems(3) by simp
  have "\<bar>a + ?x\<bar> \<le> 2000000"
    using Cons.prems(2,4) s3 v(2) r0 e1 by linarith
  from fl_near_lit [OF this] obtain a1 where
    a1: "fl (a + ?x) = Finite a1" "\<bar>a1 - (a + ?x)\<bar> \<le> 2000000 / 1000000000000000" by auto
  have p1: "list_all nonneg_entry vs" by (rule rest)
  have p2: "0 \<le> A + ?x" using Cons.prems(2) v(2) by simp
  have p3: "(A + ?x) + sum_list (map exact_value vs) \<le> 1000000" using Cons.prems(3) by simp
  have p4: "\<bar>a1 - (A + ?x)\<bar> \<le> E + 2 / 1000000000" using a1(2) Cons.prems(4) by linarith
  have len1: "real (length (v # vs)) * (2 / 1000000000)
          = real (length vs) * (2 / 1000000000) + 2 / 1000000000"
    by (simp add: distrib_right)
  with Cons.prems(5)
  have p5: "(E + 2 / 1000000000) + real (length vs) * (2 / 1000000000) \<le> 1"
    by linarith
  from Cons.IH [OF p1 p2 p3 p4 p5] obtain a' where
    f: "foldl (\<lambda>sum v. js_add sum (or_zero v)) (Finite a1) vs = Finite a'"
    and b: "\<bar>a' - (A + ?x + sum_list (map exact_value vs))\<bar>
       \<le> E + 2 / 1000000000 + real (length vs) * (2 / 1000000000)"
    by blast
  have fo: "foldl (\<lambda>sum v. js_add sum (or_zero v)) (Finite a) (v # vs) = Finite a'"
    using f v(1) a1(1) by simp
  have se: "sum_list (map exact_value (v # vs)) = ?x + sum_list (map exact_value vs)"
    by simp
  have "\<bar>a' - (A + sum_list (map exact_value (v # vs)))\<bar>
      \<le> E + real (length (v # vs)) * (2 / 1000000000)"
    using b len1 se by linarith
  with fo show ?case by blast
qed


lemma precip_near:
  assumes "plausible_series vs"
  shows "\<exists>r k. js_div (js_Math_round (js_mul (js_mul
                    (foldl (\<lambda>sum v. js_add sum (or_zero v)) (Finite 0) vs) MM_TO_INCHES)
                    (Finite 100))) (Finite 100) = Finite r
           \<and> fl (real_of_int k / 100) = Finite r
           \<and> \<bar>real_of_int k / 100 - sum_list (map exact_value vs) * (393701 / 10000000)\<bar>
                \<le> 1 / 200 + 1 / 10000000
           \<and> \<bar>r - sum_list (map exact_value vs) * (393701 / 10000000)\<bar> \<le> 1 / 200 + 2 / 10000000"
proof -
  let ?S = "sum_list (map exact_value vs)"
  have pl: "list_all nonneg_entry vs" "length vs \<le> 1000" "?S \<le> 1000000"
    using assms by (simp_all add: plausible_series_def)
  have S0: "0 \<le> ?S" using pl(1) by (rule exact_sum_nonneg)
  have "real (length vs) \<le> 1000" using pl(2) by simp
  then have len: "real (length vs) * (2 / 1000000000) \<le> 2 / 1000000" by simp
  have "\<exists>a'. foldl (\<lambda>sum v. js_add sum (or_zero v)) (Finite 0) vs = Finite a'
           \<and> \<bar>a' - (0 + ?S)\<bar> \<le> 0 + real (length vs) * (2 / 1000000000)"
    using pl(1) pl(3) len by (intro precip_sum_near) simp_all
  then obtain a where a: "foldl (\<lambda>sum v. js_add sum (or_zero v)) (Finite 0) vs = Finite a"
    and ae: "\<bar>a - ?S\<bar> \<le> 2 / 1000000" using len by auto
  have "\<bar>(393701 / 10000000) :: real\<bar> \<le> 1" by simp
  from fl_near_lit [OF this] obtain m where m: "MM_TO_INCHES = Finite m"
    and me: "\<bar>m - (393701 / 10000000)\<bar> \<le> 1 / 1000000000000000" by (auto simp: MM_TO_INCHES_def)
  have a1: "\<bar>a\<bar> \<le> 1000000 + 1" using ae S0 pl(3) by linarith
  have m1: "\<bar>m\<bar> \<le> 4 / 100" using me by linarith
  have "\<bar>a\<bar> * \<bar>m\<bar> \<le> (1000000 + 1) * (4 / 100)"
    using a1 m1 by (intro mult_mono) simp_all
  then have am: "\<bar>a * m\<bar> \<le> 50000" by (simp add: abs_mult)
  from fl_near_lit [OF this] obtain t where t: "fl (a * m) = Finite t"
    and te: "\<bar>t - a * m\<bar> \<le> 50000 / 1000000000000000" by auto
  have "\<bar>t * 100\<bar> \<le> 6000000" using te am by linarith
  from fl_near_lit [OF this] obtain y where y: "fl (t * 100) = Finite y"
    and ye: "\<bar>y - t * 100\<bar> \<le> 6000000 / 1000000000000000" by auto
  define k where "k = Math_round y"
  have ke: "\<bar>real_of_int k - y\<bar> \<le> 1 / 2" unfolding k_def by (rule Math_round_near)
  have "\<bar>real_of_int k / 100\<bar> \<le> 100000" using ke ye te am by linarith
  from fl_near_lit [OF this] obtain r where r: "fl (real_of_int k / 100) = Finite r"
    and re: "\<bar>r - real_of_int k / 100\<bar> \<le> 100000 / 1000000000000000" by auto
  have "\<bar>a - ?S\<bar> * \<bar>m\<bar> \<le> (2 / 1000000) * (4 / 100)"
    using ae m1 by (intro mult_mono) simp_all
  then have d1: "\<bar>(a - ?S) * m\<bar> \<le> 8 / 100000000" by (simp add: abs_mult)
  have "\<bar>?S\<bar> * \<bar>m - (393701 / 10000000)\<bar> \<le> 1000000 * (1 / 1000000000000000)"
    using S0 pl(3) me by (intro mult_mono) simp_all
  then have d2: "\<bar>?S * (m - (393701 / 10000000))\<bar> \<le> 1 / 1000000000" by (simp add: abs_mult)
  have "a * m - ?S * (393701 / 10000000) = (a - ?S) * m + ?S * (m - (393701 / 10000000))"
    by (simp add: algebra_simps)
  with d1 d2 have d: "\<bar>a * m - ?S * (393701 / 10000000)\<bar> \<le> 8 / 100000000 + 1 / 1000000000" by linarith
  have kb: "\<bar>real_of_int k / 100 - ?S * (393701 / 10000000)\<bar> \<le> 1 / 200 + 1 / 10000000"
    using ke ye te d by linarith
  have rb: "\<bar>r - ?S * (393701 / 10000000)\<bar> \<le> 1 / 200 + 2 / 10000000"
    using kb re by linarith
  have "js_div (js_Math_round (js_mul (js_mul
                    (foldl (\<lambda>sum v. js_add sum (or_zero v)) (Finite 0) vs) MM_TO_INCHES)
                    (Finite 100))) (Finite 100) = Finite r"
    using t y r unfolding a m by (simp add: k_def)
  with r kb rb show ?thesis by blast
qed

lemma temp_near:
  assumes "\<bar>c\<bar> \<le> 1000"
  shows "\<exists>r k. celsiusToFahrenheit (Some (Finite c)) = Some (Finite r)
           \<and> fl (real_of_int k / 10) = Finite r
           \<and> \<bar>real_of_int k / 10 - fahrenheit c\<bar> \<le> 1 / 20 + 1 / 10000000000
           \<and> \<bar>r - fahrenheit c\<bar> \<le> 1 / 20 + 2 / 10000000000"
proof -
  have "\<bar>c * 9\<bar> \<le> 9000" using assms by simp
  from fl_near_lit [OF this] obtain a where a: "fl (c * 9) = Finite a"
    and ae: "\<bar>a - c * 9\<bar> \<le> 9000 / 1000000000000000" by auto
  have "\<bar>a / 5\<bar> \<le> 2000" using ae assms by linarith
  from fl_near_lit [OF this] obtain b where b: "fl (a / 5) = Finite b"
    and be: "\<bar>b - a / 5\<bar> \<le> 2000 / 1000000000000000" by auto
  have "\<bar>b + 32\<bar> \<le> 2000" using be ae assms by linarith
  from fl_near_lit [OF this] obtain s where s: "fl (b + 32) = Finite s"
    and se: "\<bar>s - (b + 32)\<bar> \<le> 2000 / 1000000000000000" by auto
  have "\<bar>s * 10\<bar> \<le> 20000" using se be ae assms by linarith
  from fl_near_lit [OF this] obtain y where y: "fl (s * 10) = Finite y"
    and ye: "\<bar>y - s * 10\<bar> \<le> 20000 / 1000000000000000" by auto
  define k where "k = Math_round y"
  have ke: "\<bar>real_of_int k - y\<bar> \<le> 1 / 2" unfolding k_def by (rule Math_round_near)
  have "\<bar>real_of_int k / 10\<bar> \<le> 3000" using ke ye se be ae assms by linarith
  from fl_near_lit [OF this] obtain r where r: "fl (real_of_int k / 10) = Finite r"
    and re: "\<bar>r - real_of_int k / 10\<bar> \<le> 3000 / 1000000000000000" by auto
  have kb: "\<bar>real_of_int k / 10 - fahrenheit c\<bar> \<le> 1 / 20 + 1 / 10000000000"
    using ke ye se be ae unfolding fahrenheit_def by linarith
  have rb: "\<bar>r - fahrenheit c\<bar> \<le> 1 / 20 + 2 / 10000000000"
    using kb re by linarith
  have "celsiusToFahrenheit (Some (Finite c)) = Some (Finite r)"
    using a b s y r by (simp add: celsiusToFahrenheit_def k_def)
  with r kb rb show ?thesis by blast
qed

lemma wind_near:
  assumes "\<bar>v\<bar> \<le> 1000"
  shows "\<exists>r k. kphToMph (Some (Finite v)) = Some (Finite r)
           \<and> fl (real_of_int k / 10) = Finite r
           \<and> \<bar>real_of_int k / 10 - (v * (621371 / 1000000))\<bar> \<le> 1 / 20 + 1 / 10000000000
           \<and> \<bar>r - (v * (621371 / 1000000))\<bar> \<le> 1 / 20 + 2 / 10000000000"
proof -
  have "\<bar>(621371 / 1000000) :: real\<bar> \<le> 1" by simp
  from fl_near_lit [OF this] obtain m where m: "fl (621371 / 1000000) = Finite m"
    and me: "\<bar>m - (621371 / 1000000)\<bar> \<le> 1 / 1000000000000000" by auto
  have m1: "\<bar>m\<bar> \<le> 1" using me by linarith
  have "\<bar>v\<bar> * \<bar>m\<bar> \<le> 1000 * 1" using assms m1 by (intro mult_mono) simp_all
  then have vm: "\<bar>v * m\<bar> \<le> 1000" by (simp add: abs_mult)
  from fl_near_lit [OF this] obtain t where t: "fl (v * m) = Finite t"
    and te: "\<bar>t - v * m\<bar> \<le> 1000 / 1000000000000000" by auto
  have "\<bar>t * 10\<bar> \<le> 20000" using te vm by linarith
  from fl_near_lit [OF this] obtain y where y: "fl (t * 10) = Finite y"
    and ye: "\<bar>y - t * 10\<bar> \<le> 20000 / 1000000000000000" by auto
  define k where "k = Math_round y"
  have ke: "\<bar>real_of_int k - y\<bar> \<le> 1 / 2" unfolding k_def by (rule Math_round_near)
  have "\<bar>real_of_int k / 10\<bar> \<le> 3000" using ke ye te vm by linarith
  from fl_near_lit [OF this] obtain r where r: "fl (real_of_int k / 10) = Finite r"
    and re: "\<bar>r - real_of_int k / 10\<bar> \<le> 3000 / 1000000000000000" by auto
  have "\<bar>v\<bar> * \<bar>m - (621371 / 1000000)\<bar> \<le> 1000 * (1 / 1000000000000000)"
    using assms me by (intro mult_mono) simp_all
  moreover have "v * m - v * (621371 / 1000000) = v * (m - 621371 / 1000000)"
    by (simp add: right_diff_distrib)
  ultimately have d: "\<bar>v * m - v * (621371 / 1000000)\<bar> \<le> 1 / 1000000000000"
    by (simp only: abs_mult)
  have kb: "\<bar>real_of_int k / 10 - (v * (621371 / 1000000))\<bar> \<le> 1 / 20 + 1 / 10000000000"
    using ke ye te d by linarith
  have rb: "\<bar>r - (v * (621371 / 1000000))\<bar> \<le> 1 / 20 + 2 / 10000000000"
    using kb re by linarith
  have "kphToMph (Some (Finite v)) = Some (Finite r)"
    using m t y r by (simp add: kphToMph_def k_def)
  with r kb rb show ?thesis by blast
qed

subsection \<open>The doubles of the examples\<close>

lemma double_MM:
  "fl 0.0393701 = Finite (5673829366065253 / 144115188075855872)"
  using fl_eq_down [of 57 "0.0393701" "5673829366065253"] by (simp add: round_even_def)

lemma double_kph:
  "fl 0.621371 = Finite (5596812408117665 / 9007199254740992)"
  using fl_eq_down [of 53 "0.621371" "5596812408117665"] by (simp add: round_even_def)

lemma double_d0:
  "fl 0.6349996571001851 = Finite (5719568438193573 / 9007199254740992)"
  using fl_eq_down [of 53 "0.6349996571001851" "5719568438193573"] by (simp add: round_even_def)

lemma cx3_inches:
  "js_mul (Finite (5719568438193573 / 9007199254740992)) (Finite (5673829366065253 / 144115188075855872)) = Finite (7205759403792793 / 288230376151711744)"
  using fl_eq_down [of 58 "(5719568438193573 / 9007199254740992) * (5673829366065253 / 144115188075855872)" "7205759403792793"] by (simp add: round_even_def)

lemma cx3_scaled:
  "js_mul (Finite (7205759403792793 / 288230376151711744)) (Finite 100) = Finite (5 / 2)"
  using fl_eq_down [of 51 "(7205759403792793 / 288230376151711744) * 100" "5629499534213120"] by (simp add: round_even_def)

lemma cx3_round:
  "js_Math_round (Finite (5 / 2)) = Finite 3"
  by (simp add: Math_round_def)

lemma cx3_result:
  "js_div (Finite 3) (Finite 100) = Finite (1080863910568919 / 36028797018963968)"
  using fl_eq_down [of 58 "3 / 100" "8646911284551352"] by (simp add: round_even_def)

lemma double_c0:
  "fl (-89.75000000000001) = Finite (- (6315594789945345 / 70368744177664))"
  using fl_eq_down [of 46 "-89.75000000000001" "(- 6315594789945345)"] by (simp add: round_even_def)

lemma cx5_times9:
  "js_mul (Finite (- (6315594789945345 / 70368744177664))) (Finite 9) = Finite (- (7105044138688513 / 8796093022208))"
  using fl_eq_down [of 43 "(- (6315594789945345 / 70368744177664)) * 9" "(- 7105044138688513)"] by (simp add: round_even_def)

lemma cx5_div5:
  "js_div (Finite (- (7105044138688513 / 8796093022208))) (Finite 5) = Finite (- (2842017655475405 / 17592186044416))"
  using fl_eq_down [of 45 "(- (7105044138688513 / 8796093022208)) / 5" "(- 5684035310950810)"] by (simp add: round_even_def)

lemma cx5_plus32:
  "js_add (Finite (- (2842017655475405 / 17592186044416))) (Finite 32) = Finite (- (2279067702054093 / 17592186044416))"
  using fl_eq_down [of 45 "(- (2842017655475405 / 17592186044416)) + 32" "(- 4558135404108186)"] by (simp add: round_even_def)

lemma cx5_scaled:
  "js_mul (Finite (- (2279067702054093 / 17592186044416))) (Finite 10) = Finite (- (2591 / 2))"
  using fl_eq_down [of 42 "(- (2279067702054093 / 17592186044416)) * 10" "(- 5697669255135232)"] by (simp add: round_even_def)

lemma cx5_round:
  "js_Math_round (Finite (- (2591 / 2))) = Finite (- 1295)"
  by (simp add: Math_round_def)

lemma cx5_result:
  "js_div (Finite (- 1295)) (Finite 10) = Finite (- (259 / 2))"
  using fl_eq_down [of 45 "(- 1295) / 10" "(- 4556376185503744)"] by (simp add: round_even_def)

lemma double_v0:
  "fl 0.08046722489462817 = Finite (5798274624815765 / 72057594037927936)"
  using fl_eq_down [of 56 "0.08046722489462817" "5798274624815765"] by (simp add: round_even_def)

lemma cxw_mph:
  "js_mul (Finite (5798274624815765 / 72057594037927936)) (Finite (5596812408117665 / 9007199254740992)) = Finite (3602879701896397 / 72057594037927936)"
  using fl_eq_down [of 57 "(5798274624815765 / 72057594037927936) * (5596812408117665 / 9007199254740992)" "7205759403792794"] by (simp add: round_even_def)

lemma cxw_scaled:
  "js_mul (Finite (3602879701896397 / 72057594037927936)) (Finite 10) = Finite (1 / 2)"
  using fl_eq_down [of 53 "(3602879701896397 / 72057594037927936) * 10" "4503599627370496"] by (simp add: round_even_def)

lemma cxw_round:
  "js_Math_round (Finite (1 / 2)) = Finite 1"
  by (simp add: Math_round_def)

lemma cxw_result:
  "js_div (Finite 1) (Finite 10) = Finite (3602879701896397 / 36028797018963968)"
  using fl_eq_down [of 56 "1 / 10" "7205759403792794"] by (simp add: round_even_def)

lemma double_003:
  "fl 0.03 = Finite (1080863910568919 / 36028797018963968)"
  using fl_eq_down [of 58 "0.03" "8646911284551352"] by (simp add: round_even_def)

lemma double_01:
  "fl 0.1 = Finite (3602879701896397 / 36028797018963968)"
  using fl_eq_down [of 56 "0.1" "7205759403792794"] by (simp add: round_even_def)

lemma double_68:
  "js_div (Finite 680) (Finite 10) = Finite 68"
  using fl_eq_down [of 46 "680 / 10" "4785074604081152"] by (simp add: round_even_def)

section \<open>The weather client\<close>

lemma lastVal_spec: "lastVal s = spec_last s"
  by (auto simp: lastVal_def spec_last_def last_conv_nth split: option.splits)

lemma fetch_ok:
  assumes "nw la lo = Fulfilled res" and "ok res" and "body res = Json d"
  shows "fetchWeatherData nw la lo = Fulfilled
     \<lparr>precip24hr =
        js_div (js_Math_round (js_mul (js_mul
          (foldl (\<lambda>sum v. js_add sum (or_zero v)) (Finite 0)
             (or_empty (precipitation (or_no_hourly d)))) MM_TO_INCHES) (Finite 100))) (Finite 100),
      tempF = celsiusToFahrenheit (spec_last (temperature_2m (or_no_hourly d))),
      humidity = spec_last (relative_humidity_2m (or_no_hourly d)),
      dewPointF = celsiusToFahrenheit (spec_last (dew_point_2m (or_no_hourly d))),
      windSpeedMph = kphToMph (spec_last (wind_speed_10m (or_no_hourly d))),
      windDir = spec_last (wind_direction_10m (or_no_hourly d))\<rparr>"
  using assms by (simp add: fetchWeatherData_def Let_def lastVal_spec)

lemma example_reply_ok:
  "example_reply h la lo = Fulfilled \<lparr>status = 200, body = Json (Some h)\<rparr>
   \<and> ok \<lparr>status = 200, body = Json (Some h)\<rparr>
   \<and> body \<lparr>status = 200, body = Json (Some h)\<rparr> = Json (Some h)"
  by (simp add: example_reply_def ok_def)

lemma fl_zero: "fl 0 = Finite 0"
  by (simp add: fl_def)

lemma precip_empty:
  "js_div (js_Math_round (js_mul (js_mul (Finite 0) MM_TO_INCHES) (Finite 100))) (Finite 100)
     = Finite 0"
  unfolding MM_TO_INCHES_def double_MM by (simp add: Math_round_def fl_zero)

lemma precip_example:
  "js_div (js_Math_round (js_mul (js_mul
      (foldl (\<lambda>sum v. js_add sum (or_zero v)) (Finite 0)
         [Some (Finite 0), Some (Finite 0.5), Some (Finite 1.0)]) MM_TO_INCHES)
      (Finite 100))) (Finite 100) = fl 0.06"
proof -
  let ?vs = "[Some (Finite 0), Some (Finite 0.5), Some (Finite 1.0)]"
  have p: "plausible_series ?vs"
    by (simp add: plausible_series_def nonneg_entry_def exact_value_def)
  have s: "sum_list (map exact_value ?vs) = 15 / 10" by (simp add: exact_value_def)
  from precip_near [OF p] obtain r k where
    r: "js_div (js_Math_round (js_mul (js_mul
          (foldl (\<lambda>sum v. js_add sum (or_zero v)) (Finite 0) ?vs) MM_TO_INCHES)
          (Finite 100))) (Finite 100) = Finite r"
    and k: "fl (real_of_int k / 100) = Finite r"
    and b: "\<bar>real_of_int k / 100 - sum_list (map exact_value ?vs) * (393701 / 10000000)\<bar>
              \<le> 1 / 200 + 1 / 10000000"
    by blast
  have "\<bar>real_of_int k / 100 - 15 / 10 * (393701 / 10000000)\<bar> \<le> 1 / 200 + 1 / 10000000"
    using b unfolding s .
  then have "5 < real_of_int k \<and> real_of_int k < 7" by linarith
  then have "k = 6" by linarith
  then have "fl 0.06 = Finite r" using k by simp
  with r show ?thesis by simp
qed


lemma temp_example: "celsiusToFahrenheit (Some (Finite 20)) = Some (Finite 68)"
proof -
  have "\<bar>20 :: real\<bar> \<le> 1000" by simp
  from temp_near [OF this] obtain r k where
    r: "celsiusToFahrenheit (Some (Finite 20)) = Some (Finite r)"
    and k: "fl (real_of_int k / 10) = Finite r"
    and b: "\<bar>real_of_int k / 10 - fahrenheit 20\<bar> \<le> 1 / 20 + 1 / 10000000000"
    by blast
  have "fahrenheit 20 = 68" by (simp add: fahrenheit_def)
  with b have "679 < real_of_int k \<and> real_of_int k < 681" by linarith
  then have "k = 680" by linarith
  then have "Finite r = Finite 68" using k double_68 by simp
  with r show ?thesis by simp
qed

lemma wind_example: "kphToMph (Some (Finite 10)) = Some (fl 6.2)"
proof -
  have "\<bar>10 :: real\<bar> \<le> 1000" by simp
  from wind_near [OF this] obtain r k where
    r: "kphToMph (Some (Finite 10)) = Some (Finite r)"
    and k: "fl (real_of_int k / 10) = Finite r"
    and b: "\<bar>real_of_int k / 10 - 10 * (621371 / 1000000)\<bar> \<le> 1 / 20 + 1 / 10000000000"
    by blast
  from b have "61 < real_of_int k \<and> real_of_int k < 63" by linarith
  then have "k = 62" by linarith
  then have "fl 6.2 = Finite r" using k by simp
  with r show ?thesis by simp
qed

lemma example_fetch:
  "fetchWeatherData
     (example_reply (no_hourly\<lparr>precipitation :=
        Some [Some (Finite 0), Some (Finite 0.5), Some (Finite 1.0)]\<rparr>)) la lo
     = Fulfilled weather_a"
proof -
  let ?h = "no_hourly\<lparr>precipitation :=
        Some [Some (Finite 0), Some (Finite 0.5), Some (Finite 1.0)]\<rparr>"
  have s: "or_empty (precipitation (or_no_hourly (Some ?h)))
             = [Some (Finite 0), Some (Finite 0.5), Some (Finite 1.0)]"
    "spec_last (temperature_2m (or_no_hourly (Some ?h))) = None"
    "spec_last (wind_speed_10m (or_no_hourly (Some ?h))) = None"
    "spec_last (relative_humidity_2m (or_no_hourly (Some ?h))) = None"
    "spec_last (dew_point_2m (or_no_hourly (Some ?h))) = None"
    "spec_last (wind_direction_10m (or_no_hourly (Some ?h))) = None"
    by (simp_all add: spec_last_def or_no_hourly_def no_hourly_def or_empty_def)
  have n: "celsiusToFahrenheit None = None" "kphToMph None = None"
    by (simp_all add: celsiusToFahrenheit_def kphToMph_def)
  from fetch_ok [of "example_reply ?h" la lo "\<lparr>status = 200, body = Json (Some ?h)\<rparr>" "Some ?h"]
    example_reply_ok [of ?h la lo]
  show ?thesis unfolding s n precip_example weather_a_def by blast
qed

lemma site_a_fetch:
  "fetchWeatherData (net ex_env 0) (lat site_a) (lon site_a) = Fulfilled weather_a"
  using example_fetch by (simp add: ex_env_def)

text \<open>
  Claim C3, as amended. When the request succeeds, the reported 24-hour precipitation is
  \<open>Math.round(sum * 0.0393701 * 100) / 100\<close> evaluated in double arithmetic, the sum
  taken from left to right with a null entry as 0. For a series of rain-gauge range the
  result is the double nearest to a multiple of 0.01 and lies within 0.005 + 0.0000002
  of the exact sum times 0.0393701: it is that product rounded to 2 decimal places, up
  to the rounding errors of the operations. The hourly values 0, 0.5 and 1.0 mm give
  the double 0.06.
\<close>

theorem precip24hr_double_rounded:
  "(nw la lo = Fulfilled res \<and> ok res \<and> body res = Json d
      \<and> plausible_series (or_empty (precipitation (or_no_hourly d))) \<longrightarrow>
      (\<exists>w r k. fetchWeatherData nw la lo = Fulfilled w
          \<and> precip24hr w = Finite r
          \<and> fl (real_of_int k / 100) = Finite r
          \<and> \<bar>real_of_int k / 100 - spec_precip_sum d * 0.0393701\<bar> \<le> 1 / 200 + 1 / 10 ^ 7
          \<and> \<bar>r - spec_precip_sum d * 0.0393701\<bar> \<le> 1 / 200 + 2 / 10 ^ 7))
   \<and> (\<exists>w. fetchWeatherData
             (example_reply (no_hourly\<lparr>precipitation :=
                Some [Some (Finite 0), Some (Finite 0.5), Some (Finite 1.0)]\<rparr>))
             la lo = Fulfilled w
          \<and> precip24hr w = fl 0.06)"
proof (intro conjI impI)
  assume a: "nw la lo = Fulfilled res \<and> ok res \<and> body res = Json d
      \<and> plausible_series (or_empty (precipitation (or_no_hourly d)))"
  let ?vs = "or_empty (precipitation (or_no_hourly d))"
  from a have p: "plausible_series ?vs" by simp
  from precip_near [OF p] obtain r k where
    r: "js_div (js_Math_round (js_mul (js_mul
          (foldl (\<lambda>sum v. js_add sum (or_zero v)) (Finite 0) ?vs) MM_TO_INCHES)
          (Finite 100))) (Finite 100) = Finite r"
    and k: "fl (real_of_int k / 100) = Finite r"
    and b1: "\<bar>real_of_int k / 100 - sum_list (map exact_value ?vs) * (393701 / 10000000)\<bar>
              \<le> 1 / 200 + 1 / 10000000"
    and b2: "\<bar>r - sum_list (map exact_value ?vs) * (393701 / 10000000)\<bar>
              \<le> 1 / 200 + 2 / 10000000"
    by blast
  have w: "precip24hr \<lparr>precip24hr = Finite r,
      tempF = celsiusToFahrenheit (spec_last (temperature_2m (or_no_hourly d))),
      humidity = spec_last (relative_humidity_2m (or_no_hourly d)),
      dewPointF = celsiusToFahrenheit (spec_last (dew_point_2m (or_no_hourly d))),
      windSpeedMph = kphToMph (spec_last (wind_speed_10m (or_no_hourly d))),
      windDir = spec_last (wind_direction_10m (or_no_hourly d))\<rparr> = Finite r"
    by simp
  have e: "spec_precip_sum d = sum_list (map exact_value ?vs)"
    by (simp add: spec_precip_sum_def or_empty_def or_no_hourly_def no_hourly_def
          split: option.splits)
  have c1: "\<bar>real_of_int k / 100 - spec_precip_sum d * 0.0393701\<bar> \<le> 1 / 200 + 1 / 10 ^ 7"
    using b1 by (simp add: e)
  have c2: "\<bar>r - spec_precip_sum d * 0.0393701\<bar> \<le> 1 / 200 + 2 / 10 ^ 7"
    using b2 by (simp add: e)
  from a have "fetchWeatherData nw la lo = Fulfilled
     \<lparr>precip24hr = Finite r,
      tempF = celsiusToFahrenheit (spec_last (temperature_2m (or_no_hourly d))),
      humidity = spec_last (relative_humidity_2m (or_no_hourly d)),
      dewPointF = celsiusToFahrenheit (spec_last (dew_point_2m (or_no_hourly d))),
      windSpeedMph = kphToMph (spec_last (wind_speed_10m (or_no_hourly d))),
      windDir = spec_last (wind_direction_10m (or_no_hourly d))\<rparr>"
    using fetch_ok [of nw la lo res d] r by simp
  with w k c1 c2
  show "\<exists>w r k. fetchWeatherData nw la lo = Fulfilled w
          \<and> precip24hr w = Finite r
          \<and> fl (real_of_int k / 100) = Finite r
          \<and> \<bar>real_of_int k / 100 - spec_precip_sum d * 0.0393701\<bar> \<le> 1 / 200 + 1 / 10 ^ 7
          \<and> \<bar>r - spec_precip_sum d * 0.0393701\<bar> \<le> 1 / 200 + 2 / 10 ^ 7"
    by blast
next
  let ?h = "no_hourly\<lparr>precipitation :=
                Some [Some (Finite 0), Some (Finite 0.5), Some (Finite 1.0)]\<rparr>"
  have "or_empty (precipitation (or_no_hourly (Some ?h)))
          = [Some (Finite 0), Some (Finite 0.5), Some (Finite 1.0)]"
    by (simp add: or_empty_def or_no_hourly_def)
  then show "\<exists>w. fetchWeatherData (example_reply ?h) la lo = Fulfilled w
          \<and> precip24hr w = fl 0.06"
    using fetch_ok [of "example_reply ?h" la lo "\<lparr>status = 200, body = Json (Some ?h)\<rparr>" "Some ?h"]
      example_reply_ok [of ?h la lo] precip_example
    by simp
qed

theorem precip24hr_double_rounded_witness:
  "example_reply ex_hourly (Finite 44) (Finite (- 93))
     = Fulfilled \<lparr>status = 200, body = Json (Some ex_hourly)\<rparr>
   \<and> ok \<lparr>status = 200, body = Json (Some ex_hourly)\<rparr>
   \<and> plausible_series [Some (Finite 0), None, Some (Finite 2.5)]
   \<and> (\<exists>w r. fetchWeatherData (example_reply ex_hourly) (Finite 44) (Finite (- 93)) = Fulfilled w
          \<and> precip24hr w = Finite r
          \<and> \<bar>r - 2.5 * 0.0393701\<bar> \<le> 1 / 200 + 2 / 10 ^ 7)"
proof -
  have v: "or_empty (precipitation (or_no_hourly (Some ex_hourly)))
            = [Some (Finite 0), None, Some (Finite 2.5)]"
    by (simp add: or_empty_def or_no_hourly_def ex_hourly_def)
  have p: "plausible_series [Some (Finite 0), None, Some (Finite 2.5)]"
    by (simp add: plausible_series_def nonneg_entry_def exact_value_def)
  have s: "spec_precip_sum (Some ex_hourly) = 2.5"
    by (simp add: spec_precip_sum_def ex_hourly_def exact_value_def)
  note h = example_reply_ok [of ex_hourly "Finite 44" "Finite (- 93)"]
  from precip24hr_double_rounded [of "example_reply ex_hourly" "Finite 44" "Finite (- 93)"
      "\<lparr>status = 200, body = Json (Some ex_hourly)\<rparr>" "Some ex_hourly"] h p v
  obtain w r where "fetchWeatherData (example_reply ex_hourly) (Finite 44) (Finite (- 93)) = Fulfilled w"
    "precip24hr w = Finite r"
    "\<bar>r - spec_precip_sum (Some ex_hourly) * 0.0393701\<bar> \<le> 1 / 200 + 2 / 10 ^ 7"
    by auto
  then have "\<exists>w r. fetchWeatherData (example_reply ex_hourly) (Finite 44) (Finite (- 93)) = Fulfilled w
          \<and> precip24hr w = Finite r
          \<and> \<bar>r - 2.5 * 0.0393701\<bar> \<le> 1 / 200 + 2 / 10 ^ 7"
    unfolding s by blast
  with h p show ?thesis by blast
qed

text \<open>
  The claim as stated fails. For the single hourly value 0.6349996571001851 the exact
  product is below 0.025, so its rounding to 2 decimal places is 0.02, and the program
  reports the double 0.03: the double computed for the product times 100 is 2.5.
\<close>

theorem precip24hr_not_decimal_rounding:
  "fetchWeatherData
     (example_reply (no_hourly\<lparr>precipitation :=
        Some [Some (Finite (5719568438193573 / 9007199254740992))]\<rparr>))
     (Finite 44) (Finite (- 93))
     = Fulfilled \<lparr>precip24hr = Finite (1080863910568919 / 36028797018963968), tempF = None,
         humidity = None, dewPointF = None, windSpeedMph = None, windDir = None\<rparr>
   \<and> fl 0.6349996571001851 = Finite (5719568438193573 / 9007199254740992)
   \<and> fl 0.03 = Finite (1080863910568919 / 36028797018963968)
   \<and> rounds_to 2 (5719568438193573 / 9007199254740992 * 0.0393701) 0.02
   \<and> \<not> rounds_to 2 (5719568438193573 / 9007199254740992 * 0.0393701) 0.03
   \<and> \<not> rounds_to 2 (5719568438193573 / 9007199254740992 * 0.0393701)
          (1080863910568919 / 36028797018963968)"
proof -
  let ?h = "no_hourly\<lparr>precipitation :=
        Some [Some (Finite (5719568438193573 / 9007199254740992))]\<rparr>"
  have z: "or_zero (Some (Finite (5719568438193573 / 9007199254740992)))
             = Finite (5719568438193573 / 9007199254740992)"
    by (simp add: or_zero_def)
  have a0: "js_add (Finite 0) (Finite (5719568438193573 / 9007199254740992))
             = Finite (5719568438193573 / 9007199254740992)"
    using fl_eq_down [of 53 "5719568438193573 / 9007199254740992" "5719568438193573"]
    by (simp add: round_even_def)
  have "js_div (js_Math_round (js_mul (js_mul
          (foldl (\<lambda>sum v. js_add sum (or_zero v)) (Finite 0)
             [Some (Finite (5719568438193573 / 9007199254740992))]) MM_TO_INCHES)
          (Finite 100))) (Finite 100) = Finite (1080863910568919 / 36028797018963968)"
    by (simp only: foldl_Nil foldl_Cons z a0 MM_TO_INCHES_def double_MM
          cx3_inches cx3_scaled cx3_round cx3_result)
  moreover have "or_empty (precipitation (or_no_hourly (Some ?h)))
          = [Some (Finite (5719568438193573 / 9007199254740992))]"
    by (simp add: or_empty_def or_no_hourly_def)
  moreover have "spec_last None = None" by (simp add: spec_last_def)
  ultimately have f: "fetchWeatherData (example_reply ?h) (Finite 44) (Finite (- 93))
     = Fulfilled \<lparr>precip24hr = Finite (1080863910568919 / 36028797018963968), tempF = None,
         humidity = None, dewPointF = None, windSpeedMph = None, windDir = None\<rparr>"
    using fetch_ok [of "example_reply ?h" "Finite 44" "Finite (- 93)"
        "\<lparr>status = 200, body = Json (Some ?h)\<rparr>" "Some ?h"]
      example_reply_ok [of ?h "Finite 44" "Finite (- 93)"]
    by (simp add: or_no_hourly_def no_hourly_def celsiusToFahrenheit_def kphToMph_def)
  have r: "rounds_to 2 (5719568438193573 / 9007199254740992 * 0.0393701) 0.02"
    "\<not> rounds_to 2 (5719568438193573 / 9007199254740992 * 0.0393701) 0.03"
    "\<not> rounds_to 2 (5719568438193573 / 9007199254740992 * 0.0393701)
          (1080863910568919 / 36028797018963968)"
    by (simp_all add: rounds_to_def)
  from f double_d0 double_003 r show ?thesis by blast
qed

lemma celsius_null: "(celsiusToFahrenheit s = None) = (s = None)"
  by (simp add: celsiusToFahrenheit_def split: option.splits)

lemma kph_null: "(kphToMph s = None) = (s = None)"
  by (simp add: kphToMph_def split: option.splits)

text \<open>
  Claim C5, as amended. When the request succeeds, humidity and wind direction are the
  last value of their hourly series, null when the series is empty or missing.
  Temperature, dew point and wind speed are null exactly when that last value is null;
  otherwise they are \<open>Math.round(x * 10) / 10\<close> evaluated in double arithmetic, \<open>x\<close> the
  last value converted to Fahrenheit or to miles per hour. For a last value of at most
  1000 in magnitude the result is the double nearest to a multiple of 0.1 and lies within
  0.05 + 0.0000000002 of the exact conversion: it is the conversion rounded to 1 decimal
  place, up to the rounding errors of the operations. A last temperature of 20 gives 68
  and a last wind speed of 10 gives the double 6.2.
\<close>

theorem instantaneous_fields_double_rounded:
  "(nw la lo = Fulfilled res \<and> ok res \<and> body res = Json d \<longrightarrow>
      (\<exists>w. fetchWeatherData nw la lo = Fulfilled w
          \<and> humidity w = spec_last (relative_humidity_2m (or_no_hourly d))
          \<and> windDir w = spec_last (wind_direction_10m (or_no_hourly d))
          \<and> ((tempF w = None) = (spec_last (temperature_2m (or_no_hourly d)) = None))
          \<and> ((dewPointF w = None) = (spec_last (dew_point_2m (or_no_hourly d)) = None))
          \<and> ((windSpeedMph w = None) = (spec_last (wind_speed_10m (or_no_hourly d)) = None))
          \<and> (\<forall>c. spec_last (temperature_2m (or_no_hourly d)) = Some (Finite c) \<and> \<bar>c\<bar> \<le> 1000
                \<longrightarrow> (\<exists>r k. tempF w = Some (Finite r) \<and> near_tenth (fahrenheit c) r k))
          \<and> (\<forall>c. spec_last (dew_point_2m (or_no_hourly d)) = Some (Finite c) \<and> \<bar>c\<bar> \<le> 1000
                \<longrightarrow> (\<exists>r k. dewPointF w = Some (Finite r) \<and> near_tenth (fahrenheit c) r k))
          \<and> (\<forall>v. spec_last (wind_speed_10m (or_no_hourly d)) = Some (Finite v) \<and> \<bar>v\<bar> \<le> 1000
                \<longrightarrow> (\<exists>r k. windSpeedMph w = Some (Finite r) \<and> near_tenth (mph v) r k))))
   \<and> (\<exists>w. fetchWeatherData
             (example_reply (no_hourly\<lparr>temperature_2m := Some [Some (Finite 18), Some (Finite 20)],
                                        wind_speed_10m := Some [Some (Finite 10)]\<rparr>))
             la lo = Fulfilled w
          \<and> tempF w = Some (Finite 68) \<and> windSpeedMph w = Some (fl 6.2)
          \<and> humidity w = None \<and> dewPointF w = None \<and> windDir w = None)"
proof (intro conjI impI)
  assume a: "nw la lo = Fulfilled res \<and> ok res \<and> body res = Json d"
  let ?w = "\<lparr>precip24hr =
        js_div (js_Math_round (js_mul (js_mul
          (foldl (\<lambda>sum v. js_add sum (or_zero v)) (Finite 0)
             (or_empty (precipitation (or_no_hourly d)))) MM_TO_INCHES) (Finite 100))) (Finite 100),
      tempF = celsiusToFahrenheit (spec_last (temperature_2m (or_no_hourly d))),
      humidity = spec_last (relative_humidity_2m (or_no_hourly d)),
      dewPointF = celsiusToFahrenheit (spec_last (dew_point_2m (or_no_hourly d))),
      windSpeedMph = kphToMph (spec_last (wind_speed_10m (or_no_hourly d))),
      windDir = spec_last (wind_direction_10m (or_no_hourly d))\<rparr>"
  from a have f: "fetchWeatherData nw la lo = Fulfilled ?w"
    using fetch_ok [of nw la lo res d] by simp
  have 1: "humidity ?w = spec_last (relative_humidity_2m (or_no_hourly d))" by simp
  have 2: "windDir ?w = spec_last (wind_direction_10m (or_no_hourly d))" by simp
  have 3: "(tempF ?w = None) = (spec_last (temperature_2m (or_no_hourly d)) = None)"
    by (simp add: celsius_null)
  have 4: "(dewPointF ?w = None) = (spec_last (dew_point_2m (or_no_hourly d)) = None)"
    by (simp add: celsius_null)
  have 5: "(windSpeedMph ?w = None) = (spec_last (wind_speed_10m (or_no_hourly d)) = None)"
    by (simp add: kph_null)
  have 6: "\<forall>c. spec_last (temperature_2m (or_no_hourly d)) = Some (Finite c) \<and> \<bar>c\<bar> \<le> 1000
                \<longrightarrow> (\<exists>r k. tempF ?w = Some (Finite r) \<and> near_tenth (fahrenheit c) r k)"
    using temp_near by (simp add: near_tenth_def)
  have 7: "\<forall>c. spec_last (dew_point_2m (or_no_hourly d)) = Some (Finite c) \<and> \<bar>c\<bar> \<le> 1000
                \<longrightarrow> (\<exists>r k. dewPointF ?w = Some (Finite r) \<and> near_tenth (fahrenheit c) r k)"
    using temp_near by (simp add: near_tenth_def)
  have 8: "\<forall>v. spec_last (wind_speed_10m (or_no_hourly d)) = Some (Finite v) \<and> \<bar>v\<bar> \<le> 1000
                \<longrightarrow> (\<exists>r k. windSpeedMph ?w = Some (Finite r) \<and> near_tenth (mph v) r k)"
    using wind_near by (simp add: near_tenth_def mph_def)
  from f 1 2 3 4 5 6 7 8
  show "\<exists>w. fetchWeatherData nw la lo = Fulfilled w
          \<and> humidity w = spec_last (relative_humidity_2m (or_no_hourly d))
          \<and> windDir w = spec_last (wind_direction_10m (or_no_hourly d))
          \<and> ((tempF w = None) = (spec_last (temperature_2m (or_no_hourly d)) = None))
          \<and> ((dewPointF w = None) = (spec_last (dew_point_2m (or_no_hourly d)) = None))
          \<and> ((windSpeedMph w = None) = (spec_last (wind_speed_10m (or_no_hourly d)) = None))
          \<and> (\<forall>c. spec_last (temperature_2m (or_no_hourly d)) = Some (Finite c) \<and> \<bar>c\<bar> \<le> 1000
                \<longrightarrow> (\<exists>r k. tempF w = Some (Finite r) \<and> near_tenth (fahrenheit c) r k))
          \<and> (\<forall>c. spec_last (dew_point_2m (or_no_hourly d)) = Some (Finite c) \<and> \<bar>c\<bar> \<le> 1000
                \<longrightarrow> (\<exists>r k. dewPointF w = Some (Finite r) \<and> near_tenth (fahrenheit c) r k))
          \<and> (\<forall>v. spec_last (wind_speed_10m (or_no_hourly d)) = Some (Finite v) \<and> \<bar>v\<bar> \<le> 1000
                \<longrightarrow> (\<exists>r k. windSpeedMph w = Some (Finite r) \<and> near_tenth (mph v) r k))"
    by (intro exI [of _ ?w] conjI)
next
  let ?h = "no_hourly\<lparr>temperature_2m := Some [Some (Finite 18), Some (Finite 20)],
                                        wind_speed_10m := Some [Some (Finite 10)]\<rparr>"
  have s: "spec_last (temperature_2m (or_no_hourly (Some ?h))) = Some (Finite 20)"
    "spec_last (wind_speed_10m (or_no_hourly (Some ?h))) = Some (Finite 10)"
    "spec_last (relative_humidity_2m (or_no_hourly (Some ?h))) = None"
    "spec_last (dew_point_2m (or_no_hourly (Some ?h))) = None"
    "spec_last (wind_direction_10m (or_no_hourly (Some ?h))) = None"
    by (simp_all add: spec_last_def or_no_hourly_def no_hourly_def)
  have n: "celsiusToFahrenheit None = None" by (simp add: celsiusToFahrenheit_def)
  from fetch_ok [of "example_reply ?h" la lo "\<lparr>status = 200, body = Json (Some ?h)\<rparr>" "Some ?h"]
    example_reply_ok [of ?h la lo]
  have "fetchWeatherData (example_reply ?h) la lo = Fulfilled
     \<lparr>precip24hr =
        js_div (js_Math_round (js_mul (js_mul
          (foldl (\<lambda>sum v. js_add sum (or_zero v)) (Finite 0)
             (or_empty (precipitation (or_no_hourly (Some ?h))))) MM_TO_INCHES) (Finite 100))) (Finite 100),
      tempF = Some (Finite 68), humidity = None, dewPointF = None,
      windSpeedMph = Some (fl 6.2), windDir = None\<rparr>"
    unfolding s n temp_example wind_example by blast
  then show "\<exists>w. fetchWeatherData (example_reply ?h) la lo = Fulfilled w
          \<and> tempF w = Some (Finite 68) \<and> windSpeedMph w = Some (fl 6.2)
          \<and> humidity w = None \<and> dewPointF w = None \<and> windDir w = None"
    by simp
qed

theorem instantaneous_fields_double_rounded_witness:
  "example_reply ex_hourly (Finite 44) (Finite (- 93))
     = Fulfilled \<lparr>status = 200, body = Json (Some ex_hourly)\<rparr>
   \<and> ok \<lparr>status = 200, body = Json (Some ex_hourly)\<rparr>
   \<and> spec_last (temperature_2m (or_no_hourly (Some ex_hourly))) = Some (Finite 20)
   \<and> \<bar>20 :: real\<bar> \<le> 1000
   \<and> (\<exists>w r k. fetchWeatherData (example_reply ex_hourly) (Finite 44) (Finite (- 93)) = Fulfilled w
          \<and> humidity w = None \<and> windDir w = None
          \<and> dewPointF w = None \<and> windSpeedMph w = None
          \<and> tempF w = Some (Finite r) \<and> near_tenth 68 r k)"
proof -
  note h = example_reply_ok [of ex_hourly "Finite 44" "Finite (- 93)"]
  have s: "spec_last (relative_humidity_2m (or_no_hourly (Some ex_hourly))) = None"
    "spec_last (wind_direction_10m (or_no_hourly (Some ex_hourly))) = None"
    "spec_last (temperature_2m (or_no_hourly (Some ex_hourly))) = Some (Finite 20)"
    "spec_last (dew_point_2m (or_no_hourly (Some ex_hourly))) = None"
    "spec_last (wind_speed_10m (or_no_hourly (Some ex_hourly))) = None"
    by (simp_all add: spec_last_def or_no_hourly_def no_hourly_def ex_hourly_def)
  have f: "fahrenheit 20 = 68" by (simp add: fahrenheit_def)
  note t = instantaneous_fields_double_rounded [of "example_reply ex_hourly" "Finite 44"
      "Finite (- 93)" "\<lparr>status = 200, body = Json (Some ex_hourly)\<rparr>" "Some ex_hourly"]
  from t [THEN conjunct1, THEN mp, OF h]
  obtain w where w: "fetchWeatherData (example_reply ex_hourly) (Finite 44) (Finite (- 93)) = Fulfilled w
      \<and> humidity w = spec_last (relative_humidity_2m (or_no_hourly (Some ex_hourly)))
      \<and> windDir w = spec_last (wind_direction_10m (or_no_hourly (Some ex_hourly)))
      \<and> ((tempF w = None) = (spec_last (temperature_2m (or_no_hourly (Some ex_hourly))) = None))
      \<and> ((dewPointF w = None) = (spec_last (dew_point_2m (or_no_hourly (Some ex_hourly))) = None))
      \<and> ((windSpeedMph w = None) = (spec_last (wind_speed_10m (or_no_hourly (Some ex_hourly))) = None))
      \<and> (\<forall>c. spec_last (temperature_2m (or_no_hourly (Some ex_hourly))) = Some (Finite c) \<and> \<bar>c\<bar> \<le> 1000
            \<longrightarrow> (\<exists>r k. tempF w = Some (Finite r) \<and> near_tenth (fahrenheit c) r k))
      \<and> (\<forall>c. spec_last (dew_point_2m (or_no_hourly (Some ex_hourly))) = Some (Finite c) \<and> \<bar>c\<bar> \<le> 1000
            \<longrightarrow> (\<exists>r k. dewPointF w = Some (Finite r) \<and> near_tenth (fahrenheit c) r k))
      \<and> (\<forall>v. spec_last (wind_speed_10m (or_no_hourly (Some ex_hourly))) = Some (Finite v) \<and> \<bar>v\<bar> \<le> 1000
            \<longrightarrow> (\<exists>r k. windSpeedMph w = Some (Finite r) \<and> near_tenth (mph v) r k))" ..
  from w have w1: "fetchWeatherData (example_reply ex_hourly) (Finite 44) (Finite (- 93)) = Fulfilled w"
    and w2: "humidity w = None" and w3: "windDir w = None"
    and w4: "dewPointF w = None" and w5: "windSpeedMph w = None"
    unfolding s by simp_all
  from w have "\<forall>c. Some (Finite (20 :: real)) = Some (Finite c) \<and> \<bar>c\<bar> \<le> 1000
            \<longrightarrow> (\<exists>r k. tempF w = Some (Finite r) \<and> near_tenth (fahrenheit c) r k)"
    unfolding s by blast
  then have "\<exists>r k. tempF w = Some (Finite r) \<and> near_tenth (fahrenheit 20) r k"
    by simp
  then obtain r k where "tempF w = Some (Finite r)" "near_tenth 68 r k" unfolding f by blast
  with w1 w2 w3 w4 w5 have "\<exists>w r k. fetchWeatherData (example_reply ex_hourly) (Finite 44) (Finite (- 93)) = Fulfilled w
          \<and> humidity w = None \<and> windDir w = None
          \<and> dewPointF w = None \<and> windSpeedMph w = None
          \<and> tempF w = Some (Finite r) \<and> near_tenth 68 r k"
    by blast
  with h s(3) show ?thesis by simp
qed

text \<open>
  The claim as stated fails. For a last temperature of -89.75000000000001 the exact
  conversion is below -129.55, so its rounding to 1 decimal place is -129.6, and the
  program reports -129.5: the double computed for the conversion times 10 is -1295.5.
  For a last wind speed of 0.08046722489462817 the exact conversion is below 0.05, which
  rounds to 0, and the program reports the double 0.1.
\<close>

theorem conversion_not_decimal_rounding:
  "fetchWeatherData
     (example_reply (no_hourly\<lparr>
        temperature_2m := Some [Some (Finite (- (6315594789945345 / 70368744177664)))],
        wind_speed_10m := Some [Some (Finite (5798274624815765 / 72057594037927936))]\<rparr>))
     (Finite 44) (Finite (- 93))
     = Fulfilled \<lparr>precip24hr = Finite 0, tempF = Some (Finite (- 129.5)),
         humidity = None, dewPointF = None,
         windSpeedMph = Some (Finite (3602879701896397 / 36028797018963968)), windDir = None\<rparr>
   \<and> fl (- 89.75000000000001) = Finite (- (6315594789945345 / 70368744177664))
   \<and> rounds_to 1 (fahrenheit (- (6315594789945345 / 70368744177664))) (- 129.6)
   \<and> \<not> rounds_to 1 (fahrenheit (- (6315594789945345 / 70368744177664))) (- 129.5)
   \<and> fl 0.08046722489462817 = Finite (5798274624815765 / 72057594037927936)
   \<and> fl 0.1 = Finite (3602879701896397 / 36028797018963968)
   \<and> rounds_to 1 (mph (5798274624815765 / 72057594037927936)) 0
   \<and> \<not> rounds_to 1 (mph (5798274624815765 / 72057594037927936)) 0.1
   \<and> \<not> rounds_to 1 (mph (5798274624815765 / 72057594037927936))
          (3602879701896397 / 36028797018963968)"
proof -
  let ?h = "no_hourly\<lparr>
        temperature_2m := Some [Some (Finite (- (6315594789945345 / 70368744177664)))],
        wind_speed_10m := Some [Some (Finite (5798274624815765 / 72057594037927936))]\<rparr>"
  have t: "celsiusToFahrenheit (Some (Finite (- (6315594789945345 / 70368744177664))))
            = Some (Finite (- (259 / 2)))"
    unfolding celsiusToFahrenheit_def
    by (simp only: option.case cx5_times9 cx5_div5 cx5_plus32 cx5_scaled cx5_round cx5_result)
  have v: "kphToMph (Some (Finite (5798274624815765 / 72057594037927936)))
            = Some (Finite (3602879701896397 / 36028797018963968))"
    unfolding kphToMph_def
    by (simp only: option.case double_kph cxw_mph cxw_scaled cxw_round cxw_result)
  have s: "spec_last (temperature_2m (or_no_hourly (Some ?h)))
             = Some (Finite (- (6315594789945345 / 70368744177664)))"
    "spec_last (wind_speed_10m (or_no_hourly (Some ?h)))
             = Some (Finite (5798274624815765 / 72057594037927936))"
    "spec_last (relative_humidity_2m (or_no_hourly (Some ?h))) = None"
    "spec_last (dew_point_2m (or_no_hourly (Some ?h))) = None"
    "spec_last (wind_direction_10m (or_no_hourly (Some ?h))) = None"
    "or_empty (precipitation (or_no_hourly (Some ?h))) = []"
    by (simp_all add: spec_last_def or_no_hourly_def no_hourly_def or_empty_def)
  have n: "celsiusToFahrenheit None = None" by (simp add: celsiusToFahrenheit_def)
  have h: "(- (259 / 2) :: real) = - 129.5" by simp
  from fetch_ok [of "example_reply ?h" "Finite 44" "Finite (- 93)"
      "\<lparr>status = 200, body = Json (Some ?h)\<rparr>" "Some ?h"]
    example_reply_ok [of ?h "Finite 44" "Finite (- 93)"]
  have f: "fetchWeatherData (example_reply ?h) (Finite 44) (Finite (- 93))
     = Fulfilled \<lparr>precip24hr = Finite 0, tempF = Some (Finite (- 129.5)),
         humidity = None, dewPointF = None,
         windSpeedMph = Some (Finite (3602879701896397 / 36028797018963968)), windDir = None\<rparr>"
    unfolding s n t v foldl_Nil precip_empty h by blast
  have r: "rounds_to 1 (fahrenheit (- (6315594789945345 / 70368744177664))) (- 129.6)"
    "\<not> rounds_to 1 (fahrenheit (- (6315594789945345 / 70368744177664))) (- 129.5)"
    "rounds_to 1 (mph (5798274624815765 / 72057594037927936)) 0"
    "\<not> rounds_to 1 (mph (5798274624815765 / 72057594037927936)) 0.1"
    "\<not> rounds_to 1 (mph (5798274624815765 / 72057594037927936))
          (3602879701896397 / 36028797018963968)"
    by (simp_all add: rounds_to_def fahrenheit_def mph_def)
  from f double_c0 double_v0 double_01 r show ?thesis by blast
qed


text \<open>
  Claim C6. A response whose status is outside 200 to 299 makes the weather client fail
  with an error that carries the status code, and no weather record is produced.
\<close>

theorem non_success_status_rejects:
  "nw la lo = Fulfilled res \<and> (status res < 200 \<or> 299 < status res) \<longrightarrow>
     fetchWeatherData nw la lo = Rejected (Error (''Weather API error: '' @ show_nat (status res)))
     \<and> (\<forall>w. fetchWeatherData nw la lo \<noteq> Fulfilled w)"
  by (auto simp: fetchWeatherData_def ok_def)

theorem non_success_status_rejects_witness:
  "fetchWeatherData (\<lambda>la lo. Fulfilled \<lparr>status = 500, body = NotJson\<rparr>) (Finite 44) (Finite (- 93))
     = Rejected (Error ''Weather API error: 500'')"
  using non_success_status_rejects [of "\<lambda>la lo. Fulfilled \<lparr>status = 500, body = NotJson\<rparr>"
      "Finite 44" "Finite (- 93)" "\<lparr>status = 500, body = NotJson\<rparr>"]
  by (simp add: digit_char_def)

lemma Math_round_compass:
  assumes "0 \<le> d" and "d \<le> 360"
  shows "0 \<le> Math_round (d / 22.5)" and "Math_round (d / 22.5) \<le> 16"
proof -
  have "0 \<le> d / 22.5" using assms by simp
  then show "0 \<le> Math_round (d / 22.5)" unfolding Math_round_def by linarith
  have "d / 22.5 \<le> 16" using assms by simp
  then show "Math_round (d / 22.5) \<le> 16" unfolding Math_round_def by linarith
qed

text \<open>
  Claim C10. For a direction between 0 and 360 degrees the index
  \<open>Math.round(deg / 22.5) % 16\<close> is within the bounds of the 16 compass labels, so the
  result is one of them; 0 and 360 degrees are both N, and a null direction gives the
  placeholder.
\<close>

theorem windDirLabel_in_bounds:
  "(0 \<le> d \<and> d \<le> 360 \<longrightarrow>
      0 \<le> Math_round (d / 22.5) smod 16
      \<and> Math_round (d / 22.5) smod 16 < int (length dirs)
      \<and> windDirLabel (Some d) = Some (dirs ! nat (Math_round (d / 22.5) smod 16))
      \<and> windDirLabel (Some d) \<in> Some ` set dirs)
   \<and> length dirs = 16
   \<and> windDirLabel (Some 0) = Some ''N''
   \<and> windDirLabel (Some 360) = Some ''N''
   \<and> windDirLabel None = Some ''---''"
proof (intro conjI impI)
  show len: "length dirs = 16" by (simp add: dirs_def)
  show "windDirLabel (Some 0) = Some ''N''"
    by (simp add: windDirLabel_def js_index_def dirs_def Math_round_def signed_modulo_int_def)
  show "windDirLabel (Some 360) = Some ''N''"
    by (simp add: windDirLabel_def js_index_def dirs_def Math_round_def signed_modulo_int_def)
  show "windDirLabel None = Some ''---''"
    by (simp add: windDirLabel_def)
  assume a: "0 \<le> d \<and> d \<le> 360"
  let ?k = "Math_round (d / 22.5)"
  have k: "0 \<le> ?k" "?k \<le> 16" using a Math_round_compass [of d] by simp_all
  then have m: "?k smod 16 = ?k mod 16"
    by (simp add: signed_modulo_int_def sgn_if)
  show lo: "0 \<le> ?k smod 16" using m by simp
  show hi: "?k smod 16 < int (length dirs)" using m len by simp
  show eq: "windDirLabel (Some d) = Some (dirs ! nat (?k smod 16))"
    using lo hi by (simp add: windDirLabel_def js_index_def)
  have "nat (?k smod 16) < length dirs" using lo hi by linarith
  then have "dirs ! nat (?k smod 16) \<in> set dirs" by (rule nth_mem)
  then show "windDirLabel (Some d) \<in> Some ` set dirs" using eq by simp
qed

theorem windDirLabel_in_bounds_witness:
  "(0::real) \<le> 225 \<and> (225::real) \<le> 360 \<and> windDirLabel (Some 225) = Some ''SW''"
proof -
  have "Math_round (225 / 22.5) smod 16 = 10"
    by (simp add: Math_round_def signed_modulo_int_def)
  then show ?thesis
    using windDirLabel_in_bounds [of 225] by (simp add: dirs_def)
qed

section \<open>The sync loop\<close>

lemma same_hooks_refl [simp]: "same_hooks w w"
  by (simp add: same_hooks_def)

lemma same_hooks_trans: "same_hooks a b \<Longrightarrow> same_hooks b c \<Longrightarrow> same_hooks a c"
  by (simp add: same_hooks_def)

lemma same_hooks_emit [simp]: "same_hooks w (emit es w') = same_hooks w w'"
  by (simp add: same_hooks_def emit_def)

lemma trace_emit [simp]: "trace (emit es w) = trace w @ es"
  by (simp add: emit_def)

lemma logObservation_never_rejects:
  "fst (logObservation b now sid wthr w) \<noteq> Rejected e"
  by (auto simp: logObservation_def addDoc_def split: promise.splits)

lemma fetchWeatherData_Pending:
  "(fetchWeatherData nw la lo = Pending) = (nw la lo = Pending)"
  by (auto simp: fetchWeatherData_def Let_def split: promise.splits if_splits body.splits)

lemma try_site_frame:
  "try_site ev s i res w = (p, w') \<Longrightarrow> same_hooks w w'"
  by (auto simp: try_site_def Let_def logObservation_def addDoc_def same_hooks_def emit_def
        split: promise.splits)

lemma try_site_settled:
  assumes "settles ev s i"
  shows "\<exists>w'. try_site ev s i res w = (Fulfilled (res(id' s \<mapsto> site_result ev s i)), w')
           \<and> trace w' = trace w @ site_events ev s i"
proof (cases "fetchWeatherData (net ev i) (lat s) (lon s)")
  case (Fulfilled wthr)
  show ?thesis
  proof (cases "store ev i")
    case (Fulfilled r)
    with \<open>fetchWeatherData (net ev i) (lat s) (lon s) = Fulfilled wthr\<close> show ?thesis
      by (simp add: try_site_def Let_def site_result_def site_events_def logObservation_def
            addDoc_def emit_def)
  next
    case (Rejected e)
    with \<open>fetchWeatherData (net ev i) (lat s) (lon s) = Fulfilled wthr\<close> show ?thesis
      by (simp add: try_site_def Let_def site_result_def site_events_def logObservation_def
            addDoc_def emit_def)
  next
    case Pending
    with assms show ?thesis by (simp add: settles_def)
  qed
next
  case (Rejected e)
  then show ?thesis
    by (simp add: try_site_def Let_def site_result_def site_events_def emit_def)
next
  case Pending
  then have "net ev i (lat s) (lon s) = Pending"
    by (simp add: fetchWeatherData_Pending)
  with assms show ?thesis by (simp add: settles_def)
qed

lemma site_events_paced:
  "filter paced (site_events ev s i) = [FetchStart (lat s) (lon s), FetchSettled]"
  by (simp add: site_events_def split: promise.splits)

lemma site_events_fetch:
  "filter is_fetch (site_events ev s i) = [FetchStart (lat s) (lon s)]"
  by (simp add: site_events_def split: promise.splits)

lemma cycle_events_paced:
  "filter paced (cycle_events ev ss i) = schedule ss"
  by (induction ss arbitrary: i) (simp_all add: site_events_paced)

lemma cycle_events_member:
  "j < length ss \<Longrightarrow> set (site_events ev (ss ! j) (i + j)) \<subseteq> set (cycle_events ev ss i)"
proof (induction ss arbitrary: i j)
  case Nil
  then show ?case by simp
next
  case (Cons s rest)
  show ?case
  proof (cases j)
    case 0
    then show ?thesis by simp
  next
    case (Suc m)
    then have "m < length rest" using Cons.prems by simp
    from Cons.IH [OF this, of "Suc i"] Suc show ?thesis by auto
  qed
qed

lemma fetch_loop_frame:
  "fetch_loop ev ss i res w = (p, w') \<Longrightarrow> same_hooks w w'"
proof (induction ev ss i res w arbitrary: p w' rule: fetch_loop.induct)
  case (1 ev ss i res w)
  show ?case
  proof (cases "i < length ss")
    case False
    with "1.prems" show ?thesis by (simp add: fetch_loop.simps [of ev ss i])
  next
    case True
    obtain q w1 where t: "try_site ev (ss ! i) i res w = (q, w1)"
      by (cases "try_site ev (ss ! i) i res w")
    have f: "same_hooks w w1" using t by (rule try_site_frame)
    show ?thesis
    proof (cases q)
      case (Fulfilled res1)
      let ?w2 = "if int i < int (length ss) - 1 then delay FETCH_DELAY w1 else w1"
      have "fetch_loop ev ss (i + 1) res1 ?w2 = (p, w')"
        using "1.prems" True t Fulfilled by (simp add: fetch_loop.simps [of ev ss i])
      then have "same_hooks ?w2 w'"
        using "1.IH" [OF True t [symmetric] Fulfilled] by blast
      moreover have "same_hooks w ?w2" using f by (simp add: delay_def)
      ultimately show ?thesis by (rule same_hooks_trans [rotated])
    next
      case (Rejected e)
      with "1.prems" True t f show ?thesis by (simp add: fetch_loop.simps [of ev ss i])
    next
      case Pending
      with "1.prems" True t f show ?thesis by (simp add: fetch_loop.simps [of ev ss i])
    qed
  qed
qed

lemma fetch_loop_settled:
  assumes "\<forall>j. i \<le> j \<and> j < length ss \<longrightarrow> settles ev (ss ! j) j"
  shows "\<exists>w'. fetch_loop ev ss i res w = (Fulfilled (collect ev (drop i ss) i res), w')
           \<and> trace w' = trace w @ cycle_events ev (drop i ss) i"
  using assms
proof (induction ev ss i res w rule: fetch_loop.induct)
  case (1 ev ss i res w)
  show ?case
  proof (cases "i < length ss")
    case False
    then show ?thesis by (simp add: fetch_loop.simps [of ev ss i])
  next
    case True
    let ?s = "ss ! i"
    have d: "drop i ss = ?s # drop (Suc i) ss" using True by (simp add: Cons_nth_drop_Suc)
    from "1.prems" True have "settles ev ?s i" by simp
    from try_site_settled [OF this, of res w] obtain w1 where
      t: "try_site ev ?s i res w = (Fulfilled (res(id' ?s \<mapsto> site_result ev ?s i)), w1)"
      and tr1: "trace w1 = trace w @ site_events ev ?s i"
      by blast
    let ?w2 = "if int i < int (length ss) - 1 then delay FETCH_DELAY w1 else w1"
    have "\<forall>j. i + 1 \<le> j \<and> j < length ss \<longrightarrow> settles ev (ss ! j) j"
      using "1.prems" by simp
    from "1.IH" [OF True t [symmetric] refl this] obtain w' where
      l: "fetch_loop ev ss (i + 1) (res(id' ?s \<mapsto> site_result ev ?s i)) ?w2
            = (Fulfilled (collect ev (drop (i + 1) ss) (i + 1) (res(id' ?s \<mapsto> site_result ev ?s i))), w')"
      and tr: "trace w' = trace ?w2 @ cycle_events ev (drop (i + 1) ss) (i + 1)"
      by blast
    have a: "fetch_loop ev ss i res w = (Fulfilled (collect ev (drop i ss) i res), w')"
      using True t l d by (simp add: fetch_loop.simps [of ev ss i])
    have "trace w' = trace w @ cycle_events ev (drop i ss) i"
    proof (cases "int i < int (length ss) - 1")
      case True
      then have "drop (Suc i) ss \<noteq> []" by simp
      then show ?thesis using tr tr1 True d by (simp add: delay_def)
    next
      case False
      then have "drop (Suc i) ss = []" by simp
      then show ?thesis using tr tr1 False d by simp
    qed
    with a show ?thesis by blast
  qed
qed

lemma collect_outside:
  "k \<notin> id' ` set ss \<Longrightarrow> collect ev ss i res k = res k"
  by (induction ss arbitrary: i res) auto

lemma collect_inside:
  "k \<in> id' ` set ss \<Longrightarrow> collect ev ss i res k \<noteq> None"
proof (induction ss arbitrary: i res)
  case Nil
  then show ?case by simp
next
  case (Cons s rest)
  show ?case
  proof (cases "k \<in> id' ` set rest")
    case True
    then show ?thesis using Cons.IH by simp
  next
    case False
    with Cons.prems have "k = id' s" by auto
    with False show ?thesis by (simp add: collect_outside)
  qed
qed

lemma collect_distinct:
  "distinct (map id' ss) \<Longrightarrow> j < length ss \<Longrightarrow>
     collect ev ss i res (id' (ss ! j)) = Some (site_result ev (ss ! j) (i + j))"
proof (induction ss arbitrary: i res j)
  case Nil
  then show ?case by simp
next
  case (Cons s rest)
  show ?case
  proof (cases j)
    case 0
    have "id' s \<notin> id' ` set rest" using Cons.prems(1) by simp
    then show ?thesis using 0 by (simp add: collect_outside)
  next
    case (Suc m)
    then have "m < length rest" using Cons.prems(2) by simp
    moreover have "distinct (map id' rest)" using Cons.prems(1) by simp
    ultimately show ?thesis using Cons.IH [of m "Suc i"] Suc by simp
  qed
qed

lemma schedule_fetches:
  "filter is_fetch (schedule ss) = map (\<lambda>s. FetchStart (lat s) (lon s)) ss"
  by (induction ss) auto

lemma schedule_delays:
  "filter is_delay (schedule ss) = replicate (length ss - 1) (Delay FETCH_DELAY)"
proof (induction ss)
  case Nil
  then show ?case by simp
next
  case (Cons s rest)
  then show ?case by (cases rest) auto
qed

lemma schedule_Nil: "(schedule ss = []) = (ss = [])"
  by (cases ss) simp_all

lemma schedule_last:
  "ss \<noteq> [] \<Longrightarrow> last (schedule ss) = FetchSettled"
  by (induction ss) (auto simp: schedule_Nil)

lemma schedule_one_at_a_time:
  "one_at_a_time False (schedule ss)"
  by (induction ss) auto

lemma one_at_a_time_paced:
  "one_at_a_time b (filter paced es) = one_at_a_time b es"
proof (induction es arbitrary: b)
  case Nil
  then show ?case by simp
next
  case (Cons e es)
  then show ?case by (cases e) auto
qed

lemma filter_fetch_paced:
  "filter is_fetch (filter paced es) = filter is_fetch es"
proof (induction es)
  case Nil
  then show ?case by simp
next
  case (Cons e es)
  then show ?case by (cases e) auto
qed

lemma filter_delay_paced:
  "filter is_delay (filter paced es) = filter is_delay es"
proof (induction es)
  case Nil
  then show ?case by simp
next
  case (Cons e es)
  then show ?case by (cases e) auto
qed

lemma fetchAll_settled:
  assumes "ss \<noteq> []" and "\<forall>i < length ss. settles ev (ss ! i) i"
  shows "\<exists>w'. fetchAll ev ss w = (Fulfilled (), w')
           \<and> trace w' = trace w @ cycle_events ev ss 0
           \<and> weatherData w' = weatherData w ++ collect ev ss 0 Map.empty
           \<and> lastUpdated w' = Some (clock ev (length ss))
           \<and> fetching w' = False \<and> sites w' = sites w"
proof -
  have "\<forall>j. 0 \<le> j \<and> j < length ss \<longrightarrow> settles ev (ss ! j) j" using assms(2) by simp
  from fetch_loop_settled [OF this, of Map.empty "w\<lparr>fetching := True\<rparr>"] obtain w1 where
    l: "fetch_loop ev ss 0 Map.empty (w\<lparr>fetching := True\<rparr>)
          = (Fulfilled (collect ev ss 0 Map.empty), w1)"
    and tr: "trace w1 = trace w @ cycle_events ev ss 0"
    by auto
  have "same_hooks (w\<lparr>fetching := True\<rparr>) w1" using l by (rule fetch_loop_frame)
  then have h: "weatherData w1 = weatherData w" "sites w1 = sites w"
    by (simp_all add: same_hooks_def)
  show ?thesis
    using assms(1) l tr h by (simp add: fetchAll_def)
qed

lemma try_site_Fulfilled:
  "try_site ev s i res w = (Fulfilled r, w') \<Longrightarrow> r = res(id' s \<mapsto> site_result ev s i)"
  by (auto simp: try_site_def Let_def site_result_def logObservation_def addDoc_def
        split: promise.splits)

lemma try_site_not_Rejected:
  "try_site ev s i res w \<noteq> (Rejected e, w')"
  by (auto simp: try_site_def Let_def logObservation_def addDoc_def split: promise.splits)

lemma fetch_loop_result:
  "fetch_loop ev ss i res w = (p, w') \<Longrightarrow>
     p = Pending \<or> p = Fulfilled (collect ev (drop i ss) i res)"
proof (induction ev ss i res w arbitrary: p w' rule: fetch_loop.induct)
  case (1 ev ss i res w)
  show ?case
  proof (cases "i < length ss")
    case False
    with "1.prems" show ?thesis by (auto simp: fetch_loop.simps [of ev ss i])
  next
    case True
    have d: "drop i ss = ss ! i # drop (Suc i) ss" using True by (simp add: Cons_nth_drop_Suc)
    obtain q w1 where t: "try_site ev (ss ! i) i res w = (q, w1)"
      by (cases "try_site ev (ss ! i) i res w")
    show ?thesis
    proof (cases q)
      case (Fulfilled res1)
      have r: "res1 = res(id' (ss ! i) \<mapsto> site_result ev (ss ! i) i)"
        using t Fulfilled try_site_Fulfilled by blast
      let ?w2 = "if int i < int (length ss) - 1 then delay FETCH_DELAY w1 else w1"
      have "fetch_loop ev ss (i + 1) res1 ?w2 = (p, w')"
        using "1.prems" True t Fulfilled by (simp add: fetch_loop.simps [of ev ss i])
      then have "p = Pending \<or> p = Fulfilled (collect ev (drop (i + 1) ss) (i + 1) res1)"
        using "1.IH" [OF True t [symmetric] Fulfilled] by blast
      then show ?thesis using r d by simp
    next
      case (Rejected e)
      with t try_site_not_Rejected show ?thesis by blast
    next
      case Pending
      with "1.prems" True t show ?thesis by (simp add: fetch_loop.simps [of ev ss i])
    qed
  qed
qed

lemma fetchAll_result:
  assumes "fetchAll ev ss w = (p, w')"
  shows "(ss = [] \<and> p = Fulfilled () \<and> w' = w)
         \<or> (ss \<noteq> [] \<and> p = Pending \<and> weatherData w' = weatherData w \<and> fetching w' = True
              \<and> lastUpdated w' = lastUpdated w)
         \<or> (ss \<noteq> [] \<and> p = Fulfilled ()
              \<and> weatherData w' = weatherData w ++ collect ev ss 0 Map.empty
              \<and> fetching w' = False \<and> lastUpdated w' = Some (clock ev (length ss)))"
proof (cases "ss = []")
  case True
  with assms show ?thesis by (simp add: fetchAll_def)
next
  case False
  obtain q w1 where l: "fetch_loop ev ss 0 Map.empty (w\<lparr>fetching := True\<rparr>) = (q, w1)"
    by (cases "fetch_loop ev ss 0 Map.empty (w\<lparr>fetching := True\<rparr>)")
  have "same_hooks (w\<lparr>fetching := True\<rparr>) w1" using l by (rule fetch_loop_frame)
  then have h: "weatherData w1 = weatherData w" "fetching w1 = True"
    "lastUpdated w1 = lastUpdated w"
    by (simp_all add: same_hooks_def)
  from fetch_loop_result [OF l]
  have "q = Pending \<or> q = Fulfilled (collect ev ss 0 Map.empty)" by simp
  then show ?thesis
  proof
    assume "q = Pending"
    with assms False l h show ?thesis by (auto simp: fetchAll_def)
  next
    assume "q = Fulfilled (collect ev ss 0 Map.empty)"
    with assms False l h show ?thesis by (auto simp: fetchAll_def)
  qed
qed

lemma try_site_awaits:
  assumes "fetchWeatherData (net ev i) (lat s) (lon s) = Fulfilled wthr" and "store ev i = Pending"
  shows "\<exists>w' es. try_site ev s i res w = (Pending, w') \<and> trace w' = trace w @ es
           \<and> filter is_fetch es = [FetchStart (lat s) (lon s)]"
  using assms by (simp add: try_site_def Let_def logObservation_def addDoc_def)

lemma fetch_loop_awaits:
  assumes "i \<le> j" and "j < length ss"
    and "\<forall>k. i \<le> k \<and> k < j \<longrightarrow> settles ev (ss ! k) k"
    and "fetchWeatherData (net ev j) (lat (ss ! j)) (lon (ss ! j)) = Fulfilled wthr"
    and "store ev j = Pending"
  shows "\<exists>w' es. fetch_loop ev ss i res w = (Pending, w') \<and> trace w' = trace w @ es
           \<and> filter is_fetch es
               = map (\<lambda>s. FetchStart (lat s) (lon s)) (take (Suc j - i) (drop i ss))"
  using assms
proof (induction ev ss i res w rule: fetch_loop.induct)
  case (1 ev ss i res w)
  have il: "i < length ss" using "1.prems" by simp
  have d: "drop i ss = ss ! i # drop (Suc i) ss" using il by (simp add: Cons_nth_drop_Suc)
  show ?case
  proof (cases "i = j")
    case True
    from try_site_awaits [of ev j "ss ! j" wthr res w] "1.prems" obtain w' es where
      t: "try_site ev (ss ! j) j res w = (Pending, w')" and tr: "trace w' = trace w @ es"
      and f: "filter is_fetch es = [FetchStart (lat (ss ! j)) (lon (ss ! j))]"
      by blast
    have "fetch_loop ev ss j res w = (Pending, w')"
      using "1.prems"(2) t by (simp add: fetch_loop.simps [of ev ss j])
    then have "fetch_loop ev ss i res w = (Pending, w')"
      using True by simp
    moreover have "take (Suc j - i) (drop i ss) = [ss ! j]" using True d by simp
    ultimately show ?thesis using tr f by auto
  next
    case False
    then have ij: "i < j" using "1.prems" by simp
    let ?s = "ss ! i"
    have "settles ev ?s i" using "1.prems" ij by simp
    from try_site_settled [OF this, of res w] obtain w1 where
      t: "try_site ev ?s i res w = (Fulfilled (res(id' ?s \<mapsto> site_result ev ?s i)), w1)"
      and tr1: "trace w1 = trace w @ site_events ev ?s i"
      by blast
    define es1 where "es1 = site_events ev ?s i"
    have tr1: "trace w1 = trace w @ es1" using tr1 by (simp add: es1_def)
    have g1: "filter is_fetch es1 = [FetchStart (lat ?s) (lon ?s)]"
      by (simp add: es1_def site_events_fetch)
    let ?w2 = "if int i < int (length ss) - 1 then delay FETCH_DELAY w1 else w1"
    have p: "i + 1 \<le> j" "j < length ss"
      "\<forall>k. i + 1 \<le> k \<and> k < j \<longrightarrow> settles ev (ss ! k) k"
      using ij "1.prems" by simp_all
    from "1.IH" [OF il t [symmetric] refl p "1.prems"(4) "1.prems"(5)] obtain w' es where
      l: "fetch_loop ev ss (i + 1) (res(id' ?s \<mapsto> site_result ev ?s i)) ?w2 = (Pending, w')"
      and tr: "trace w' = trace ?w2 @ es"
      and f: "filter is_fetch es
                = map (\<lambda>s. FetchStart (lat s) (lon s)) (take (Suc j - (i + 1)) (drop (i + 1) ss))"
      by blast
    have a: "fetch_loop ev ss i res w = (Pending, w')"
      using il t l by (simp add: fetch_loop.simps [of ev ss i])
    have tk: "take (Suc j - i) (drop i ss) = ?s # take (Suc j - (i + 1)) (drop (i + 1) ss)"
      using ij d by (simp add: Suc_diff_le)
    obtain es2 where tr2: "trace w' = trace w @ es2" and e2: "filter is_fetch es2 = filter is_fetch es1 @ filter is_fetch es"
    proof (cases "int i < int (length ss) - 1")
      case True
      then have "trace w' = trace w @ (es1 @ Delay FETCH_DELAY # es)"
        using tr tr1 by (simp add: delay_def)
      then show ?thesis using that [of "es1 @ Delay FETCH_DELAY # es"] by simp
    next
      case False
      then have "trace w' = trace w @ (es1 @ es)" using tr tr1 by simp
      then show ?thesis using that [of "es1 @ es"] by simp
    qed
    show ?thesis using a tr2 e2 g1 f tk by auto
  qed
qed

lemma fetchAll_awaits:
  assumes "j < length ss" and "\<forall>i < j. settles ev (ss ! i) i"
    and "fetchWeatherData (net ev j) (lat (ss ! j)) (lon (ss ! j)) = Fulfilled wthr"
    and "store ev j = Pending"
  shows "\<exists>w' es. fetchAll ev ss w = (Pending, w') \<and> trace w' = trace w @ es
           \<and> filter is_fetch es = map (\<lambda>s. FetchStart (lat s) (lon s)) (take (Suc j) ss)
           \<and> weatherData w' = weatherData w \<and> fetching w' = True
           \<and> lastUpdated w' = lastUpdated w"
proof -
  have ne: "ss \<noteq> []" using assms(1) by auto
  have "\<forall>k. 0 \<le> k \<and> k < j \<longrightarrow> settles ev (ss ! k) k" using assms(2) by simp
  from fetch_loop_awaits [OF _ assms(1) this assms(3) assms(4), of Map.empty "w\<lparr>fetching := True\<rparr>"]
  obtain w' es where l: "fetch_loop ev ss 0 Map.empty (w\<lparr>fetching := True\<rparr>) = (Pending, w')"
    and tr: "trace w' = trace w @ es"
    and f: "filter is_fetch es = map (\<lambda>s. FetchStart (lat s) (lon s)) (take (Suc j) ss)"
    by auto
  have "same_hooks (w\<lparr>fetching := True\<rparr>) w'" using l by (rule fetch_loop_frame)
  then have h: "weatherData w' = weatherData w" "fetching w' = True" "lastUpdated w' = lastUpdated w"
    by (simp_all add: same_hooks_def)
  have "fetchAll ev ss w = (Pending, w')" using ne l by (simp add: fetchAll_def)
  with tr f h show ?thesis by blast
qed

section \<open>One sync cycle\<close>

lemma two_sites_settle:
  "\<forall>i < length [site_a, site_b]. settles ex_env ([site_a, site_b] ! i) i"
  by (auto simp: less_Suc_eq settles_def ex_env_def example_reply_def)

lemma hanging_cycle:
  "fetchAll hanging_store_env [site_a, site_b] world0
     = (Pending,
        emit [AddDocStart (id' site_a)]
          (emit [FetchSettled] (emit [FetchStart (lat site_a) (lon site_a)]
             (world0\<lparr>fetching := True\<rparr>))))"
proof -
  have ha: "fetchWeatherData (net hanging_store_env 0) (lat site_a) (lon site_a) = Fulfilled weather_a"
    using site_a_fetch by (simp add: hanging_store_env_def)
  have hs: "store hanging_store_env 0 = Pending"
    by (simp add: hanging_store_env_def)
  show ?thesis
    by (simp add: fetchAll_def fetch_loop.simps [of _ _ 0] try_site_def Let_def ha hs
          logObservation_def addDoc_def)
qed

text \<open>
  Claim C1, as amended. Provided that every promise the loop awaits settles, the weather
  request of each site and the append of its observation, one run of \<open>fetchAll\<close> over a
  non-empty list of N sites issues exactly N weather requests, one per site in the order
  of the list, each settled before the next one starts, with the fixed delay between two
  consecutive requests, N - 1 delays in all and none after the last request, whichever
  requests succeed or fail.
\<close>

theorem sync_fetches_in_order:
  "ss \<noteq> [] \<and> (\<forall>i < length ss. settles ev (ss ! i) i) \<longrightarrow>
     (\<exists>w' es. fetchAll ev ss w = (Fulfilled (), w') \<and> trace w' = trace w @ es
        \<and> es = cycle_events ev ss 0
        \<and> filter paced es = schedule ss
        \<and> filter is_fetch es = map (\<lambda>s. FetchStart (lat s) (lon s)) ss
        \<and> length (filter is_fetch es) = length ss
        \<and> filter is_delay es = replicate (length ss - 1) (Delay FETCH_DELAY)
        \<and> last (filter paced es) = FetchSettled
        \<and> one_at_a_time False es)"
proof
  assume a: "ss \<noteq> [] \<and> (\<forall>i < length ss. settles ev (ss ! i) i)"
  define es where "es = cycle_events ev ss 0"
  from a obtain w' where r: "fetchAll ev ss w = (Fulfilled (), w')" "trace w' = trace w @ es"
    using fetchAll_settled [of ss ev w] es_def by blast
  have p: "filter paced es = schedule ss"
    by (simp add: es_def cycle_events_paced)
  have f: "filter is_fetch es = map (\<lambda>s. FetchStart (lat s) (lon s)) ss"
    using p filter_fetch_paced [of es] by (simp add: schedule_fetches)
  then have n: "length (filter is_fetch es) = length ss" by simp
  have d: "filter is_delay es = replicate (length ss - 1) (Delay FETCH_DELAY)"
    using p filter_delay_paced [of es] by (simp add: schedule_delays)
  have l: "last (filter paced es) = FetchSettled"
    using p a by (simp add: schedule_last)
  have o: "one_at_a_time False es"
    using p one_at_a_time_paced [of False es] by (simp add: schedule_one_at_a_time)
  from r p f n d l o es_def
  show "\<exists>w' es. fetchAll ev ss w = (Fulfilled (), w') \<and> trace w' = trace w @ es
        \<and> es = cycle_events ev ss 0
        \<and> filter paced es = schedule ss
        \<and> filter is_fetch es = map (\<lambda>s. FetchStart (lat s) (lon s)) ss
        \<and> length (filter is_fetch es) = length ss
        \<and> filter is_delay es = replicate (length ss - 1) (Delay FETCH_DELAY)
        \<and> last (filter paced es) = FetchSettled
        \<and> one_at_a_time False es"
    by blast
qed

theorem sync_fetches_in_order_witness:
  "[site_a, site_b] \<noteq> []
   \<and> settles ex_env site_a 0 \<and> settles ex_env site_b 1
   \<and> (\<exists>w' es. fetchAll ex_env [site_a, site_b] world0 = (Fulfilled (), w')
        \<and> trace w' = es
        \<and> filter paced es = [FetchStart (Finite 46.877) (Finite (- 96.789)), FetchSettled,
                              Delay 100,
                              FetchStart (Finite 44) (Finite (- 93)), FetchSettled]
        \<and> filter is_delay es = [Delay 100])"
proof -
  have s: "settles ex_env site_a 0 \<and> settles ex_env site_b 1"
    using two_sites_settle by (simp add: less_Suc_eq)
  have "\<exists>w' es. fetchAll ex_env [site_a, site_b] world0 = (Fulfilled (), w')
        \<and> trace w' = trace world0 @ es
        \<and> filter paced es = schedule [site_a, site_b]
        \<and> filter is_delay es = replicate (length [site_a, site_b] - 1) (Delay FETCH_DELAY)"
    using sync_fetches_in_order [of "[site_a, site_b]" ex_env world0] two_sites_settle
    by blast
  then show ?thesis
    using s by (simp add: world0_def site_a_def site_b_def FETCH_DELAY_def)
qed

text \<open>
  The claim as stated fails: the loop awaits the append of each observation, so with
  both weather requests answered and an append for the first of two sites that never
  settles, the run issues one request instead of two and no delay.
\<close>

theorem hanging_append_stops_the_cycle:
  "[site_a, site_b] \<noteq> []
   \<and> net hanging_store_env 0 (lat site_a) (lon site_a) \<noteq> Pending
   \<and> net hanging_store_env 1 (lat site_b) (lon site_b) \<noteq> Pending
   \<and> fst (fetchAll hanging_store_env [site_a, site_b] world0) = Pending
   \<and> trace (snd (fetchAll hanging_store_env [site_a, site_b] world0))
        = [FetchStart (lat site_a) (lon site_a), FetchSettled, AddDocStart ''a'']
   \<and> length (filter is_fetch (trace (snd (fetchAll hanging_store_env [site_a, site_b] world0)))) = 1
   \<and> length [site_a, site_b] = 2
   \<and> filter is_delay (trace (snd (fetchAll hanging_store_env [site_a, site_b] world0))) = []"
proof -
  have p: "net hanging_store_env 0 (lat site_a) (lon site_a) \<noteq> Pending"
    "net hanging_store_env 1 (lat site_b) (lon site_b) \<noteq> Pending"
    by (simp_all add: hanging_store_env_def ex_env_def example_reply_def)
  have t: "trace (snd (fetchAll hanging_store_env [site_a, site_b] world0))
        = [FetchStart (lat site_a) (lon site_a), FetchSettled, AddDocStart ''a'']"
    unfolding hanging_cycle by (simp add: world0_def site_a_def)
  have f: "fst (fetchAll hanging_store_env [site_a, site_b] world0) = Pending"
    unfolding hanging_cycle by simp
  from p f t show ?thesis by simp
qed

text \<open>
  Claim C2, as amended. When the fetch of a site fails during a cycle, the cache entry of that site
  is null, every site of the list is still fetched and has its own result in the cache,
  and the cycle completes: the result buffer is merged into the cache, \<open>lastUpdated\<close> is
  the time read at the end and \<open>fetching\<close> is false again. This holds provided that
  every promise the loop awaits settles, the weather request of each site and the append
  of its observation; site IDs are those the store assigned, hence distinct.
\<close>

theorem failed_site_is_null:
  "(\<forall>i < length ss. settles ev (ss ! i) i) \<and> distinct (map id' ss) \<and> j < length ss
     \<and> fetchWeatherData (net ev j) (lat (ss ! j)) (lon (ss ! j)) = Rejected e \<longrightarrow>
   (\<exists>w'. fetchAll ev ss w = (Fulfilled (), w')
      \<and> weatherData w' (id' (ss ! j)) = Some None
      \<and> filter is_fetch (cycle_events ev ss 0) = map (\<lambda>s. FetchStart (lat s) (lon s)) ss
      \<and> trace w' = trace w @ cycle_events ev ss 0
      \<and> (\<forall>k < length ss. weatherData w' (id' (ss ! k)) = Some (site_result ev (ss ! k) k))
      \<and> weatherData w' = weatherData w ++ collect ev ss 0 Map.empty
      \<and> lastUpdated w' = Some (clock ev (length ss))
      \<and> fetching w' = False)"
proof
  assume a: "(\<forall>i < length ss. settles ev (ss ! i) i) \<and> distinct (map id' ss) \<and> j < length ss
     \<and> fetchWeatherData (net ev j) (lat (ss ! j)) (lon (ss ! j)) = Rejected e"
  then have ne: "ss \<noteq> []" by auto
  from a ne obtain w' where r: "fetchAll ev ss w = (Fulfilled (), w')"
    and tr: "trace w' = trace w @ cycle_events ev ss 0"
    and m: "weatherData w' = weatherData w ++ collect ev ss 0 Map.empty"
    and u: "lastUpdated w' = Some (clock ev (length ss))" "fetching w' = False"
    using fetchAll_settled [of ss ev w] by blast
  have k: "\<forall>k < length ss. weatherData w' (id' (ss ! k)) = Some (site_result ev (ss ! k) k)"
    using a m collect_distinct [of ss _ ev 0 Map.empty] by simp
  have "site_result ev (ss ! j) j = None" using a by (simp add: site_result_def)
  then have n: "weatherData w' (id' (ss ! j)) = Some None" using k a by simp
  have f: "filter is_fetch (cycle_events ev ss 0) = map (\<lambda>s. FetchStart (lat s) (lon s)) ss"
    using filter_fetch_paced [of "cycle_events ev ss 0"]
    by (simp add: cycle_events_paced schedule_fetches)
  from r tr m u k n f
  show "\<exists>w'. fetchAll ev ss w = (Fulfilled (), w')
      \<and> weatherData w' (id' (ss ! j)) = Some None
      \<and> filter is_fetch (cycle_events ev ss 0) = map (\<lambda>s. FetchStart (lat s) (lon s)) ss
      \<and> trace w' = trace w @ cycle_events ev ss 0
      \<and> (\<forall>k < length ss. weatherData w' (id' (ss ! k)) = Some (site_result ev (ss ! k) k))
      \<and> weatherData w' = weatherData w ++ collect ev ss 0 Map.empty
      \<and> lastUpdated w' = Some (clock ev (length ss))
      \<and> fetching w' = False"
    by blast
qed

lemma site_a_result:
  "\<exists>wa. site_result ex_env site_a 0 = Some wa \<and> precip24hr wa = fl 0.06"
  using site_a_fetch by (simp add: site_result_def weather_a_def)

lemma site_b_rejected:
  "fetchWeatherData (net ex_env 1) (lat site_b) (lon site_b)
     = Rejected (Error ''Weather API error: 500'')"
  by (simp add: ex_env_def fetchWeatherData_def ok_def digit_char_def)

theorem failed_site_is_null_witness:
  "settles ex_env site_a 0 \<and> settles ex_env site_b 1
   \<and> distinct (map id' [site_a, site_b]) \<and> (1::nat) < length [site_a, site_b]
   \<and> fetchWeatherData (net ex_env 1) (lat site_b) (lon site_b)
        = Rejected (Error ''Weather API error: 500'')
   \<and> (\<exists>w'. fetchAll ex_env [site_a, site_b] world0 = (Fulfilled (), w')
        \<and> weatherData w' ''b'' = Some None
        \<and> (\<exists>wa. weatherData w' ''a'' = Some (Some wa) \<and> precip24hr wa = fl 0.06)
        \<and> lastUpdated w' = Some 1002 \<and> fetching w' = False)"
proof -
  have s: "settles ex_env site_a 0 \<and> settles ex_env site_b 1"
    using two_sites_settle by (simp add: less_Suc_eq)
  have d: "distinct (map id' [site_a, site_b])" by (simp add: site_a_def site_b_def)
  have h: "(\<forall>i < length [site_a, site_b]. settles ex_env ([site_a, site_b] ! i) i)
     \<and> distinct (map id' [site_a, site_b]) \<and> 1 < length [site_a, site_b]
     \<and> fetchWeatherData (net ex_env 1) (lat ([site_a, site_b] ! 1)) (lon ([site_a, site_b] ! 1))
          = Rejected (Error ''Weather API error: 500'')"
    using two_sites_settle d site_b_rejected by simp
  from failed_site_is_null [of "[site_a, site_b]" ex_env 1 "Error ''Weather API error: 500''" world0] h
  obtain w' where r: "fetchAll ex_env [site_a, site_b] world0 = (Fulfilled (), w')"
    and n: "weatherData w' (id' ([site_a, site_b] ! 1)) = Some None"
    and k: "\<forall>k < length [site_a, site_b].
              weatherData w' (id' ([site_a, site_b] ! k)) = Some (site_result ex_env ([site_a, site_b] ! k) k)"
    and u: "lastUpdated w' = Some (clock ex_env (length [site_a, site_b]))" "fetching w' = False"
    by blast
  have b: "weatherData w' ''b'' = Some None" using n by (simp add: site_b_def)
  have "weatherData w' (id' site_a) = Some (site_result ex_env site_a 0)"
    using k by auto
  then have a: "\<exists>wa. weatherData w' ''a'' = Some (Some wa) \<and> precip24hr wa = fl 0.06"
    using site_a_result by (auto simp: site_a_def)
  have l: "lastUpdated w' = Some 1002" using u by (simp add: ex_env_def)
  from s d site_b_rejected r b a l u show ?thesis by auto
qed

text \<open>
  The claim as stated fails: the result buffer is merged only when the loop is over. With
  the site whose fetch fails first in the list and an append for the next site that never
  settles, the cache entry of the failed site is not set to null: it stays absent, or
  keeps the record of an earlier cycle, \<open>lastUpdated\<close> is not set and \<open>fetching\<close> stays
  true.
\<close>

theorem failed_site_left_stale:
  "fetchWeatherData (net late_hang_env 0) (lat site_b) (lon site_b)
     = Rejected (Error ''Weather API error: 500'')
   \<and> net late_hang_env 1 (lat site_a) (lon site_a) \<noteq> Pending
   \<and> weatherData world3 ''b'' = Some (Some weather_a)
   \<and> fst (fetchAll late_hang_env [site_b, site_a] world3) = Pending
   \<and> weatherData (snd (fetchAll late_hang_env [site_b, site_a] world3)) ''b'' = Some (Some weather_a)
   \<and> weatherData (snd (fetchAll late_hang_env [site_b, site_a] world0)) ''b'' = None
   \<and> lastUpdated (snd (fetchAll late_hang_env [site_b, site_a] world3)) = None
   \<and> fetching (snd (fetchAll late_hang_env [site_b, site_a] world3)) = True"
proof -
  have s: "\<forall>i < 1. settles late_hang_env ([site_b, site_a] ! i) i"
    by (simp add: settles_def late_hang_env_def)
  have hb: "fetchWeatherData (net late_hang_env 0) (lat site_b) (lon site_b)
              = Rejected (Error ''Weather API error: 500'')"
    by (simp add: late_hang_env_def fetchWeatherData_def ok_def digit_char_def)
  have ha: "fetchWeatherData (net late_hang_env 1) (lat ([site_b, site_a] ! 1))
              (lon ([site_b, site_a] ! 1)) = Fulfilled weather_a"
    using example_fetch by (simp add: late_hang_env_def)
  have hs: "store late_hang_env 1 = Pending" by (simp add: late_hang_env_def)
  have l: "(1::nat) < length [site_b, site_a]" by simp
  from fetchAll_awaits [OF l s ha hs, of world3]
  obtain w3 where r3: "fetchAll late_hang_env [site_b, site_a] world3 = (Pending, w3)"
    and c3: "weatherData w3 = weatherData world3" "fetching w3 = True"
      "lastUpdated w3 = lastUpdated world3"
    by blast
  from fetchAll_awaits [OF l s ha hs, of world0]
  obtain w0 where r0: "fetchAll late_hang_env [site_b, site_a] world0 = (Pending, w0)"
    and c0: "weatherData w0 = weatherData world0"
    by blast
  have p: "net late_hang_env 1 (lat site_a) (lon site_a) \<noteq> Pending"
    by (simp add: late_hang_env_def example_reply_def)
  have b: "weatherData world3 ''b'' = Some (Some weather_a)" by (simp add: world3_def)
  have "weatherData world0 ''b'' = None" "lastUpdated world3 = None"
    by (simp_all add: world0_def world3_def)
  with hb p b r3 c3 r0 c0 show ?thesis by simp
qed

text \<open>
  Claim C4. The merge of a cycle overwrites the cache at the IDs of the sites of that
  cycle, each with the result of this cycle, and leaves the entry of every other key as
  it was; a call with an empty list returns at once and changes nothing, neither the
  cache nor \<open>fetching\<close> nor \<open>lastUpdated\<close>.
\<close>

theorem merge_overwrites_only_fetched_keys:
  "fetchAll ev [] w = (Fulfilled (), w)
   \<and> (fetchAll ev ss w = (p, w') \<longrightarrow>
        (\<forall>k. k \<notin> id' ` set ss \<longrightarrow> weatherData w' k = weatherData w k)
        \<and> (ss \<noteq> [] \<and> p = Fulfilled () \<longrightarrow>
             (\<forall>k \<in> id' ` set ss. weatherData w' k = collect ev ss 0 Map.empty k
                                  \<and> weatherData w' k \<noteq> None)
             \<and> (distinct (map id' ss) \<longrightarrow>
                  (\<forall>j < length ss. weatherData w' (id' (ss ! j)) = Some (site_result ev (ss ! j) j)))))"
proof (intro conjI impI allI ballI)
  show "fetchAll ev [] w = (Fulfilled (), w)" by (simp add: fetchAll_def)
next
  fix k
  assume r: "fetchAll ev ss w = (p, w')" and k: "k \<notin> id' ` set ss"
  have "collect ev ss 0 Map.empty k = None" using k by (simp add: collect_outside)
  then have "(weatherData w ++ collect ev ss 0 Map.empty) k = weatherData w k"
    by (simp add: map_add_def)
  then show "weatherData w' k = weatherData w k"
    using fetchAll_result [OF r] by auto
next
  fix k
  assume r: "fetchAll ev ss w = (p, w')" and f: "ss \<noteq> [] \<and> p = Fulfilled ()"
    and k: "k \<in> id' ` set ss"
  have m: "weatherData w' = weatherData w ++ collect ev ss 0 Map.empty"
    using fetchAll_result [OF r] f by auto
  have c: "collect ev ss 0 Map.empty k \<noteq> None" using k by (rule collect_inside)
  then show "weatherData w' k = collect ev ss 0 Map.empty k"
    using m by (auto simp: map_add_def split: option.splits)
  then show "weatherData w' k \<noteq> None" using c by simp
next
  fix j
  assume r: "fetchAll ev ss w = (p, w')" and f: "ss \<noteq> [] \<and> p = Fulfilled ()"
    and d: "distinct (map id' ss)" and j: "j < length ss"
  have m: "weatherData w' = weatherData w ++ collect ev ss 0 Map.empty"
    using fetchAll_result [OF r] f by auto
  show "weatherData w' (id' (ss ! j)) = Some (site_result ev (ss ! j) j)"
    using m collect_distinct [OF d j, of ev 0 Map.empty] by simp
qed

theorem merge_overwrites_only_fetched_keys_witness:
  "\<exists>w'. fetchAll ex_env [site_a, site_b] world1 = (Fulfilled (), w')
     \<and> ''c'' \<notin> id' ` set [site_a, site_b] \<and> weatherData w' ''c'' = Some None
     \<and> ''z'' \<notin> id' ` set [site_a, site_b] \<and> weatherData w' ''z'' = None
     \<and> weatherData w' ''a'' \<noteq> None \<and> weatherData w' ''b'' \<noteq> None
     \<and> distinct (map id' [site_a, site_b])
     \<and> weatherData w' ''b'' = Some (site_result ex_env site_b 1)"
proof -
  obtain w' where r: "fetchAll ex_env [site_a, site_b] world1 = (Fulfilled (), w')"
    using fetchAll_settled [OF _ two_sites_settle, of world1] by auto
  have i: "''c'' \<notin> id' ` set [site_a, site_b]" "''z'' \<notin> id' ` set [site_a, site_b]"
    "''a'' \<in> id' ` set [site_a, site_b]" "''b'' \<in> id' ` set [site_a, site_b]"
    by (simp_all add: site_a_def site_b_def)
  have d: "distinct (map id' [site_a, site_b])" by (simp add: site_a_def site_b_def)
  note t = merge_overwrites_only_fetched_keys [of ex_env world1 "[site_a, site_b]" "Fulfilled ()" w']
  have c: "weatherData w' ''c'' = Some None" "weatherData w' ''z'' = None"
    using t r i by (simp_all add: world1_def world0_def)
  have a: "weatherData w' ''a'' \<noteq> None" "weatherData w' ''b'' \<noteq> None"
    using t r i by blast+
  have "weatherData w' (id' ([site_a, site_b] ! 1)) = Some (site_result ex_env ([site_a, site_b] ! 1) 1)"
    using t r d by auto
  then have b: "weatherData w' ''b'' = Some (site_result ex_env site_b 1)"
    by (simp add: site_b_def)
  from r i c a d b show ?thesis by blast
qed

section \<open>Observation logging within a cycle\<close>

lemma logObservation_Rejected:
  "logObservation (Rejected e) now sid wthr w
     = (Fulfilled (),
        emit [AddDocSettled, ConsoleError (''Failed to log observation for '' @ sid @ '':'') e]
          (emit [AddDocStart sid] w))"
  by (simp add: logObservation_def addDoc_def)

text \<open>
  Claim C7, as amended. \<open>logObservation\<close> never rejects: a failure of the append is caught
  and written to the console. Within a cycle such a failure leaves the weather record of
  the site in the cache, not null, and the cycle goes on to every site and completes.
  The call is awaited, though: the loop moves on to the next site once the append has
  settled, and when it never settles the cycle stays pending, no later site is fetched
  and nothing is merged.
\<close>

theorem observation_log_failure_is_contained:
  "(\<forall>e. fst (logObservation b now sid wthr w) \<noteq> Rejected e)
   \<and> logObservation (Rejected e) now sid wthr w
       = (Fulfilled (),
          emit [AddDocSettled, ConsoleError (''Failed to log observation for '' @ sid @ '':'') e]
            (emit [AddDocStart sid] w))
   \<and> ((\<forall>i < length ss. settles ev (ss ! i) i) \<and> distinct (map id' ss) \<and> j < length ss
        \<and> fetchWeatherData (net ev j) (lat (ss ! j)) (lon (ss ! j)) = Fulfilled wthr
        \<and> store ev j = Rejected e \<longrightarrow>
      (\<exists>w'. fetchAll ev ss w = (Fulfilled (), w')
          \<and> weatherData w' (id' (ss ! j)) = Some (Some wthr)
          \<and> trace w' = trace w @ cycle_events ev ss 0
          \<and> ConsoleError (''Failed to log observation for '' @ id' (ss ! j) @ '':'') e
               \<in> set (cycle_events ev ss 0)
          \<and> filter is_fetch (cycle_events ev ss 0) = map (\<lambda>s. FetchStart (lat s) (lon s)) ss))
   \<and> (j < length ss \<and> (\<forall>i < j. settles ev (ss ! i) i)
        \<and> fetchWeatherData (net ev j) (lat (ss ! j)) (lon (ss ! j)) = Fulfilled wthr
        \<and> store ev j = Pending \<longrightarrow>
      (\<exists>w' es. fetchAll ev ss w = (Pending, w') \<and> trace w' = trace w @ es
          \<and> filter is_fetch es = map (\<lambda>s. FetchStart (lat s) (lon s)) (take (Suc j) ss)
          \<and> weatherData w' = weatherData w \<and> fetching w' = True))"
proof (intro conjI impI allI)
  fix e'
  show "fst (logObservation b now sid wthr w) \<noteq> Rejected e'"
    by (rule logObservation_never_rejects)
next
  show "logObservation (Rejected e) now sid wthr w
       = (Fulfilled (),
          emit [AddDocSettled, ConsoleError (''Failed to log observation for '' @ sid @ '':'') e]
            (emit [AddDocStart sid] w))"
    by (rule logObservation_Rejected)
next
  assume a: "(\<forall>i < length ss. settles ev (ss ! i) i) \<and> distinct (map id' ss) \<and> j < length ss
        \<and> fetchWeatherData (net ev j) (lat (ss ! j)) (lon (ss ! j)) = Fulfilled wthr
        \<and> store ev j = Rejected e"
  then have ne: "ss \<noteq> []" by auto
  from a ne obtain w' where r: "fetchAll ev ss w = (Fulfilled (), w')"
    and tr: "trace w' = trace w @ cycle_events ev ss 0"
    and m: "weatherData w' = weatherData w ++ collect ev ss 0 Map.empty"
    using fetchAll_settled [of ss ev w] by blast
  have "collect ev ss 0 Map.empty (id' (ss ! j)) = Some (site_result ev (ss ! j) j)"
    using a collect_distinct [of ss j ev 0 Map.empty] by simp
  moreover have "site_result ev (ss ! j) j = Some wthr" using a by (simp add: site_result_def)
  ultimately have c: "weatherData w' (id' (ss ! j)) = Some (Some wthr)" using m by simp
  have "ConsoleError (''Failed to log observation for '' @ id' (ss ! j) @ '':'') e
          \<in> set (site_events ev (ss ! j) j)"
    using a by (simp add: site_events_def)
  then have g: "ConsoleError (''Failed to log observation for '' @ id' (ss ! j) @ '':'') e
          \<in> set (cycle_events ev ss 0)"
    using a cycle_events_member [of j ss ev 0] by auto
  have f: "filter is_fetch (cycle_events ev ss 0) = map (\<lambda>s. FetchStart (lat s) (lon s)) ss"
    using filter_fetch_paced [of "cycle_events ev ss 0"]
    by (simp add: cycle_events_paced schedule_fetches)
  from r tr c g f
  show "\<exists>w'. fetchAll ev ss w = (Fulfilled (), w')
          \<and> weatherData w' (id' (ss ! j)) = Some (Some wthr)
          \<and> trace w' = trace w @ cycle_events ev ss 0
          \<and> ConsoleError (''Failed to log observation for '' @ id' (ss ! j) @ '':'') e
               \<in> set (cycle_events ev ss 0)
          \<and> filter is_fetch (cycle_events ev ss 0) = map (\<lambda>s. FetchStart (lat s) (lon s)) ss"
    by blast
next
  assume a: "j < length ss \<and> (\<forall>i < j. settles ev (ss ! i) i)
        \<and> fetchWeatherData (net ev j) (lat (ss ! j)) (lon (ss ! j)) = Fulfilled wthr
        \<and> store ev j = Pending"
  then show "\<exists>w' es. fetchAll ev ss w = (Pending, w') \<and> trace w' = trace w @ es
          \<and> filter is_fetch es = map (\<lambda>s. FetchStart (lat s) (lon s)) (take (Suc j) ss)
          \<and> weatherData w' = weatherData w \<and> fetching w' = True"
    using fetchAll_awaits [of j ss ev wthr w] by blast
qed


lemma failing_store_settles:
  "\<forall>i < length [site_a, site_b]. settles failing_store_env ([site_a, site_b] ! i) i"
  by (auto simp: less_Suc_eq settles_def failing_store_env_def ex_env_def example_reply_def)

theorem observation_log_failure_is_contained_witness:
  "(settles failing_store_env site_a 0 \<and> settles failing_store_env site_b 1
      \<and> distinct (map id' [site_a, site_b]) \<and> (0::nat) < length [site_a, site_b]
      \<and> fetchWeatherData (net failing_store_env 0) (lat site_a) (lon site_a) = Fulfilled weather_a
      \<and> store failing_store_env 0 = Rejected (FirebaseError ''unavailable'')
      \<and> (\<exists>w'. fetchAll failing_store_env [site_a, site_b] world0 = (Fulfilled (), w')
            \<and> weatherData w' ''a'' = Some (Some weather_a)
            \<and> ConsoleError ''Failed to log observation for a:'' (FirebaseError ''unavailable'')
                 \<in> set (trace w')
            \<and> filter is_fetch (trace w')
                 = [FetchStart (lat site_a) (lon site_a), FetchStart (lat site_b) (lon site_b)]))
   \<and> (fetchWeatherData (net hanging_store_env 0) (lat site_a) (lon site_a) = Fulfilled weather_a
      \<and> store hanging_store_env 0 = Pending
      \<and> (\<exists>w'. fetchAll hanging_store_env [site_a, site_b] world0 = (Pending, w')
            \<and> filter is_fetch (trace w') = [FetchStart (lat site_a) (lon site_a)]
            \<and> weatherData w' ''a'' = None \<and> fetching w' = True))"
proof -
  have s: "settles failing_store_env site_a 0 \<and> settles failing_store_env site_b 1"
    using failing_store_settles by (simp add: less_Suc_eq)
  have d: "distinct (map id' [site_a, site_b])" by (simp add: site_a_def site_b_def)
  have fa: "fetchWeatherData (net failing_store_env 0) (lat site_a) (lon site_a) = Fulfilled weather_a"
    using site_a_fetch by (simp add: failing_store_env_def)
  have st: "store failing_store_env 0 = Rejected (FirebaseError ''unavailable'')"
    by (simp add: failing_store_env_def)
  have ha: "fetchWeatherData (net hanging_store_env 0) (lat site_a) (lon site_a) = Fulfilled weather_a"
    using site_a_fetch by (simp add: hanging_store_env_def)
  have hs: "store hanging_store_env 0 = Pending"
    by (simp add: hanging_store_env_def)
  note t1 = observation_log_failure_is_contained
    [of "store failing_store_env 0" 0 "''a''" weather_a world0 "FirebaseError ''unavailable''"
        "[site_a, site_b]" failing_store_env 0]
  from t1 failing_store_settles d fa st
  obtain w1 where r1: "fetchAll failing_store_env [site_a, site_b] world0 = (Fulfilled (), w1)"
    and c1: "weatherData w1 (id' ([site_a, site_b] ! 0)) = Some (Some weather_a)"
    and tr1: "trace w1 = trace world0 @ cycle_events failing_store_env [site_a, site_b] 0"
    and g1: "ConsoleError (''Failed to log observation for '' @ id' ([site_a, site_b] ! 0) @ '':'')
               (FirebaseError ''unavailable'') \<in> set (cycle_events failing_store_env [site_a, site_b] 0)"
    and f1: "filter is_fetch (cycle_events failing_store_env [site_a, site_b] 0)
               = map (\<lambda>s. FetchStart (lat s) (lon s)) [site_a, site_b]"
    by auto
  have p1: "\<exists>w'. fetchAll failing_store_env [site_a, site_b] world0 = (Fulfilled (), w')
            \<and> weatherData w' ''a'' = Some (Some weather_a)
            \<and> ConsoleError ''Failed to log observation for a:'' (FirebaseError ''unavailable'')
                 \<in> set (trace w')
            \<and> filter is_fetch (trace w')
                 = [FetchStart (lat site_a) (lon site_a), FetchStart (lat site_b) (lon site_b)]"
    using r1 c1 tr1 g1 f1 by (simp add: world0_def site_a_def)
  note t2 = observation_log_failure_is_contained
    [of "store hanging_store_env 0" 0 "''a''" weather_a world0 "FirebaseError ''unavailable''"
        "[site_a, site_b]" hanging_store_env 0]
  from t2 ha hs
  obtain w2 es where r2: "fetchAll hanging_store_env [site_a, site_b] world0 = (Pending, w2)"
    and tr2: "trace w2 = trace world0 @ es"
    and f2: "filter is_fetch es = map (\<lambda>s. FetchStart (lat s) (lon s)) (take (Suc 0) [site_a, site_b])"
    and c2: "weatherData w2 = weatherData world0" "fetching w2 = True"
    by auto
  have p2: "\<exists>w'. fetchAll hanging_store_env [site_a, site_b] world0 = (Pending, w')
            \<and> filter is_fetch (trace w') = [FetchStart (lat site_a) (lon site_a)]
            \<and> weatherData w' ''a'' = None \<and> fetching w' = True"
    using r2 tr2 f2 c2 by (simp add: world0_def)
  from s d fa st ha hs p1 p2 show ?thesis by simp
qed

text \<open>
  The claim as stated fails: with both weather requests answered and an append for the
  first site that never settles, the second site is never fetched.
\<close>

theorem logging_blocks_the_loop:
  "net hanging_store_env 0 (lat site_a) (lon site_a) \<noteq> Pending
   \<and> net hanging_store_env 1 (lat site_b) (lon site_b) \<noteq> Pending
   \<and> fst (fetchAll hanging_store_env [site_a, site_b] world0) = Pending
   \<and> filter is_fetch (trace (snd (fetchAll hanging_store_env [site_a, site_b] world0)))
        = [FetchStart (lat site_a) (lon site_a)]
   \<and> FetchStart (lat site_b) (lon site_b)
        \<notin> set (trace (snd (fetchAll hanging_store_env [site_a, site_b] world0)))"
proof -
  have ha: "fetchWeatherData (net hanging_store_env 0) (lat ([site_a, site_b] ! 0))
              (lon ([site_a, site_b] ! 0)) = Fulfilled weather_a"
    using site_a_fetch by (simp add: hanging_store_env_def)
  have hs: "store hanging_store_env 0 = Pending"
    by (simp add: hanging_store_env_def)
  from fetchAll_awaits [of 0 "[site_a, site_b]" hanging_store_env weather_a world0, OF _ _ ha hs]
  obtain w2 es where r2: "fetchAll hanging_store_env [site_a, site_b] world0 = (Pending, w2)"
    and tr2: "trace w2 = trace world0 @ es"
    and f2: "filter is_fetch es = map (\<lambda>s. FetchStart (lat s) (lon s)) (take (Suc 0) [site_a, site_b])"
    by auto
  have f: "filter is_fetch (trace w2) = [FetchStart (lat site_a) (lon site_a)]"
    using tr2 f2 by (simp add: world0_def)
  have "FetchStart (lat site_b) (lon site_b) \<notin> set (filter is_fetch (trace w2))"
    unfolding f by (simp add: site_a_def site_b_def)
  then have n: "FetchStart (lat site_b) (lon site_b) \<notin> set (trace w2)" by simp
  have p: "net hanging_store_env 0 (lat site_a) (lon site_a) \<noteq> Pending"
    "net hanging_store_env 1 (lat site_b) (lon site_b) \<noteq> Pending"
    by (simp_all add: hanging_store_env_def ex_env_def example_reply_def)
  from p r2 f n show ?thesis by simp
qed

section \<open>The site form\<close>

lemma validCoords_iff:
  "validCoords a b =
     (\<exists>x y. a = Finite x \<and> b = Finite y \<and> - 90 \<le> x \<and> x \<le> 90 \<and> - 180 \<le> y \<and> y \<le> 180)"
  by (cases a; cases b) (auto simp: validCoords_def js_ge_def)

text \<open>
  Claim C8. The form submits a site exactly when the trimmed name and the trimmed state
  are not empty and both coordinates parse to numbers in range, the latitude between -90
  and 90 and the longitude between -180 and 180. What it submits is the trimmed name,
  the trimmed state in upper case and these two numbers; a coordinate that is not a
  number or is out of range, or an empty name or state, is rejected.
\<close>

theorem site_form_submits_only_valid_sites:
  "((handleSubmit js n s la lo = Some v) =
      (trim js n \<noteq> [] \<and> trim js s \<noteq> []
       \<and> (\<exists>x y. parseFloat js la = Finite x \<and> parseFloat js lo = Finite y
                \<and> - 90 \<le> x \<and> x \<le> 90 \<and> - 180 \<le> y \<and> y \<le> 180
                \<and> v = \<lparr>name = trim js n, state = toUpperCase js (trim js s),
                        lat = Finite x, lon = Finite y\<rparr>)))
   \<and> ((\<forall>x. parseFloat js la = Finite x \<longrightarrow> x < - 90 \<or> 90 < x) \<longrightarrow>
        handleSubmit js n s la lo = None)
   \<and> ((\<forall>y. parseFloat js lo = Finite y \<longrightarrow> y < - 180 \<or> 180 < y) \<longrightarrow>
        handleSubmit js n s la lo = None)
   \<and> (trim js n = [] \<or> trim js s = [] \<longrightarrow> handleSubmit js n s la lo = None)"
proof (intro conjI impI)
  show "(handleSubmit js n s la lo = Some v) =
      (trim js n \<noteq> [] \<and> trim js s \<noteq> []
       \<and> (\<exists>x y. parseFloat js la = Finite x \<and> parseFloat js lo = Finite y
                \<and> - 90 \<le> x \<and> x \<le> 90 \<and> - 180 \<le> y \<and> y \<le> 180
                \<and> v = \<lparr>name = trim js n, state = toUpperCase js (trim js s),
                        lat = Finite x, lon = Finite y\<rparr>))"
    by (auto simp: handleSubmit_def canSave_def validCoords_iff)
next
  assume "\<forall>x. parseFloat js la = Finite x \<longrightarrow> x < - 90 \<or> 90 < x"
  then have "\<not> validCoords (parseFloat js la) (parseFloat js lo)"
    by (auto simp: validCoords_iff)
  then show "handleSubmit js n s la lo = None"
    by (simp add: handleSubmit_def canSave_def)
next
  assume "\<forall>y. parseFloat js lo = Finite y \<longrightarrow> y < - 180 \<or> 180 < y"
  then have "\<not> validCoords (parseFloat js la) (parseFloat js lo)"
    by (auto simp: validCoords_iff)
  then show "handleSubmit js n s la lo = None"
    by (simp add: handleSubmit_def canSave_def)
next
  assume "trim js n = [] \<or> trim js s = []"
  then show "handleSubmit js n s la lo = None"
    by (auto simp: handleSubmit_def canSave_def)
qed

theorem site_form_submits_only_valid_sites_witness:
  "handleSubmit example_builtins ''Fargo West'' ''nd'' ''46.877'' ''-96.789''
     = Some \<lparr>name = ''Fargo West'', state = ''ND'', lat = Finite 46.877, lon = Finite (- 96.789)\<rparr>
   \<and> parseFloat example_builtins ''91'' = Finite 91
   \<and> handleSubmit example_builtins ''Fargo West'' ''nd'' ''91'' ''-96.789'' = None
   \<and> parseFloat example_builtins ''abc'' = NaN
   \<and> handleSubmit example_builtins ''Fargo West'' ''nd'' ''46.877'' ''abc'' = None
   \<and> trim example_builtins '''' = ''''
   \<and> handleSubmit example_builtins '''' ''nd'' ''46.877'' ''-96.789'' = None"
proof -
  let ?v = "\<lparr>name = ''Fargo West'', state = ''ND'', lat = Finite 46.877, lon = Finite (- 96.789)\<rparr>"
  have p: "parseFloat example_builtins ''46.877'' = Finite 46.877"
    "parseFloat example_builtins ''-96.789'' = Finite (- 96.789)"
    "trim example_builtins ''Fargo West'' = ''Fargo West''"
    "trim example_builtins ''nd'' = ''nd''"
    "toUpperCase example_builtins ''nd'' = ''ND''"
    by (simp_all add: example_builtins_def)
  have "parseFloat example_builtins ''46.877'' = Finite 46.877
        \<and> parseFloat example_builtins ''-96.789'' = Finite (- 96.789)
        \<and> - 90 \<le> (46.877::real) \<and> (46.877::real) \<le> 90
        \<and> - 180 \<le> (- 96.789::real) \<and> (- 96.789::real) \<le> 180
        \<and> ?v = \<lparr>name = trim example_builtins ''Fargo West'',
                  state = toUpperCase example_builtins (trim example_builtins ''nd''),
                  lat = Finite 46.877, lon = Finite (- 96.789)\<rparr>"
    by (simp add: p)
  then have "\<exists>x y. parseFloat example_builtins ''46.877'' = Finite x
        \<and> parseFloat example_builtins ''-96.789'' = Finite y
        \<and> - 90 \<le> x \<and> x \<le> 90 \<and> - 180 \<le> y \<and> y \<le> 180
        \<and> ?v = \<lparr>name = trim example_builtins ''Fargo West'',
                  state = toUpperCase example_builtins (trim example_builtins ''nd''),
                  lat = Finite x, lon = Finite y\<rparr>"
    by blast
  moreover have "trim example_builtins ''Fargo West'' \<noteq> [] \<and> trim example_builtins ''nd'' \<noteq> []"
    by (simp add: p)
  ultimately have a: "handleSubmit example_builtins ''Fargo West'' ''nd'' ''46.877'' ''-96.789'' = Some ?v"
    using site_form_submits_only_valid_sites [of example_builtins "''Fargo West''" "''nd''"
        "''46.877''" "''-96.789''" ?v]
    by blast
  have b: "handleSubmit example_builtins ''Fargo West'' ''nd'' ''91'' ''-96.789'' = None"
    using site_form_submits_only_valid_sites [of example_builtins "''Fargo West''" "''nd''" "''91''"
        "''-96.789''"]
    by (simp add: example_builtins_def)
  have c: "handleSubmit example_builtins ''Fargo West'' ''nd'' ''46.877'' ''abc'' = None"
    using site_form_submits_only_valid_sites [of example_builtins "''Fargo West''" "''nd''" "''46.877''"
        "''abc''"]
    by (simp add: example_builtins_def)
  have d: "handleSubmit example_builtins '''' ''nd'' ''46.877'' ''-96.789'' = None"
    using site_form_submits_only_valid_sites [of example_builtins "''''" "''nd''" "''46.877''"
        "''-96.789''"]
    by (simp add: example_builtins_def)
  from a b c d show ?thesis by (simp add: example_builtins_def)
qed

section \<open>Deleting a site\<close>

lemma deleteDoc_other_collection:
  "c \<noteq> coll \<Longrightarrow> db (snd (deleteDoc backend coll i w)) c = db w c"
  by (simp add: deleteDoc_def split: promise.splits)

text \<open>
  Claim C9. \<open>remove\<close> leaves the history collection as it is, whatever the store answers;
  when it succeeds, no site with that ID remains in the list nor in the collection of
  sites, and when the store fails nothing changes. The other operations on sites leave
  the history collection as it is too, and logging an observation deletes none.
\<close>

theorem remove_keeps_observations:
  "db (snd (remove backend i w)) ''observations'' = db w ''observations''
   \<and> (fst (remove backend i w) = Fulfilled () \<longrightarrow>
        (\<forall>s \<in> set (sites (snd (remove backend i w))). id' s \<noteq> i)
        \<and> sites (snd (remove backend i w)) = filter (\<lambda>s. id' s \<noteq> i) (sites w)
        \<and> db (snd (remove backend i w)) ''sites'' i = None)
   \<and> (fst (remove backend i w) \<noteq> Fulfilled () \<longrightarrow> snd (remove backend i w) = w)
   \<and> db (snd (deleteSiteDoc backend i w)) ''observations'' = db w ''observations''
   \<and> db (snd (add b2 f w)) ''observations'' = db w ''observations''
   \<and> db (snd (update backend i f w)) ''observations'' = db w ''observations''
   \<and> dom (db w ''observations'')
        \<subseteq> dom (db (snd (logObservation b2 now sid wthr w)) ''observations'')"
proof (intro conjI impI)
  show "db (snd (remove backend i w)) ''observations'' = db w ''observations''"
    by (simp add: remove_def deleteSiteDoc_def deleteDoc_def split: promise.splits)
  show "db (snd (deleteSiteDoc backend i w)) ''observations'' = db w ''observations''"
    by (simp add: deleteSiteDoc_def deleteDoc_other_collection)
  show "db (snd (add b2 f w)) ''observations'' = db w ''observations''"
    by (simp add: add_def addSiteDoc_def addDoc_def split: promise.splits)
  show "db (snd (update backend i f w)) ''observations'' = db w ''observations''"
    by (simp add: update_def updateSiteDoc_def updateDoc_def split: promise.splits)
  show "dom (db w ''observations'')
        \<subseteq> dom (db (snd (logObservation b2 now sid wthr w)) ''observations'')"
    by (auto simp: logObservation_def addDoc_def emit_def split: promise.splits)
  show "fst (remove backend i w) \<noteq> Fulfilled () \<Longrightarrow> snd (remove backend i w) = w"
    by (simp add: remove_def deleteSiteDoc_def deleteDoc_def split: promise.splits)
  assume a: "fst (remove backend i w) = Fulfilled ()"
  then show s: "sites (snd (remove backend i w)) = filter (\<lambda>s. id' s \<noteq> i) (sites w)"
    by (simp add: remove_def deleteSiteDoc_def deleteDoc_def split: promise.splits)
  show "\<forall>s \<in> set (sites (snd (remove backend i w))). id' s \<noteq> i"
    unfolding s by simp
  show "db (snd (remove backend i w)) ''sites'' i = None"
    using a by (simp add: remove_def deleteSiteDoc_def deleteDoc_def split: promise.splits)
qed

theorem remove_keeps_observations_witness:
  "fst (remove (Fulfilled ()) ''a'' world2) = Fulfilled ()
   \<and> sites (snd (remove (Fulfilled ()) ''a'' world2)) = [site_b]
   \<and> db (snd (remove (Fulfilled ()) ''a'' world2)) ''sites'' ''a'' = None
   \<and> db (snd (remove (Fulfilled ()) ''a'' world2)) ''observations'' ''o1''
       = Some (ObservationDoc (weather.extend weather_a (observation.fields ''a'' 1000)))
   \<and> fst (remove (Rejected (FirebaseError ''unavailable'')) ''a'' world2) \<noteq> Fulfilled ()
   \<and> sites (snd (remove (Rejected (FirebaseError ''unavailable'')) ''a'' world2)) = [site_a, site_b]"
proof -
  have f: "fst (remove (Fulfilled ()) ''a'' world2) = Fulfilled ()"
    by (simp add: remove_def deleteSiteDoc_def deleteDoc_def)
  have r: "fst (remove (Rejected (FirebaseError ''unavailable'')) ''a'' world2) \<noteq> Fulfilled ()"
    by (simp add: remove_def deleteSiteDoc_def deleteDoc_def)
  note t = remove_keeps_observations [of "Fulfilled ()" "''a''" world2]
  note u = remove_keeps_observations [of "Rejected (FirebaseError ''unavailable'')" "''a''" world2]
  have s: "sites (snd (remove (Fulfilled ()) ''a'' world2)) = [site_b]"
    using t f by (simp add: world2_def world0_def site_a_def site_b_def)
  have n: "db (snd (remove (Fulfilled ()) ''a'' world2)) ''sites'' ''a'' = None"
    using t f by simp
  have "db (snd (remove (Fulfilled ()) ''a'' world2)) ''observations'' = db world2 ''observations''"
    using t by simp
  then have ob: "db (snd (remove (Fulfilled ()) ''a'' world2)) ''observations'' ''o1''
       = Some (ObservationDoc (weather.extend weather_a (observation.fields ''a'' 1000)))"
    by (simp add: world2_def)
  have "snd (remove (Rejected (FirebaseError ''unavailable'')) ''a'' world2) = world2"
    using u r by blast
  then have k: "sites (snd (remove (Rejected (FirebaseError ''unavailable'')) ''a'' world2))
                  = [site_a, site_b]"
    by (simp add: world2_def world0_def)
  from f s n ob r k show ?thesis by simp
qed

end
